theory Spec2Isabelle
  imports Main "HOL-Library.Sublist" "HOL-Library.Word"
begin

section \<open>Python values\<close>

text \<open>
  The values that flow through \<^verbatim>\<open>plotly_preprocessor.py\<close>: what
  \<^verbatim>\<open>ast.literal_eval\<close> returns and what a notebook output record is made of.
  A Python \<^verbatim>\<open>str\<close> is a \<open>string\<close>; one \<open>char\<close> stands for one code point
  below 256. A \<^verbatim>\<open>dict\<close> is an association list in insertion order with string
  keys (the keys of JSON objects); floats, tuples, sets and bytes values are not
  represented.
\<close>

datatype pyval =
    PNone
  | PBool bool
  | PInt int
  | PStr string
  | PList "pyval list"
  | PDict "(string \<times> pyval) list"

text \<open>The exceptions the module can meet. \<open>LibraryError\<close> carries the message of any
  exception raised inside an external library call.\<close>

datatype exn = AttributeError | TypeError | SyntaxError | ValueError | LibraryError string

text \<open>Python truthiness, as used by \<^verbatim>\<open>not html\<close>, \<^verbatim>\<open>if cfg_str\<close> and
  \<^verbatim>\<open>fig.layout.width or 700\<close>.\<close>

fun truthy :: "pyval \<Rightarrow> bool" where
  "truthy PNone = False"
| "truthy (PBool b) = b"
| "truthy (PInt n) = (n \<noteq> 0)"
| "truthy (PStr s) = (s \<noteq> [])"
| "truthy (PList xs) = (xs \<noteq> [])"
| "truthy (PDict d) = (d \<noteq> [])"

text \<open>\<^verbatim>\<open>d.get(k)\<close> and \<^verbatim>\<open>d[k] = v\<close> on an insertion-ordered dict: assignment to a
  present key keeps the key's position and replaces the value, assignment to a new key
  appends.\<close>

fun dict_get :: "('k \<times> 'v) list \<Rightarrow> 'k \<Rightarrow> 'v option" where
  "dict_get [] k = None"
| "dict_get ((k', v) # d) k = (if k' = k then Some v else dict_get d k)"

fun dict_set :: "('k \<times> 'v) list \<Rightarrow> 'k \<Rightarrow> 'v \<Rightarrow> ('k \<times> 'v) list" where
  "dict_set [] k v = [(k, v)]"
| "dict_set ((k', v') # d) k v = (if k' = k then (k, v) # d else (k', v') # dict_set d k v)"

section \<open>\<^verbatim>\<open>_fix_js\<close>\<close>

text \<open>\<^verbatim>\<open>str.replace(old, new)\<close>: every non-overlapping occurrence of \<open>old\<close>, found
  scanning from the left, is replaced; an empty \<open>old\<close> matches before every character and
  at the end.\<close>

function replace :: "string \<Rightarrow> string \<Rightarrow> string \<Rightarrow> string" where
  "replace old new [] = (if old = [] then new else [])"
| "replace old new (c # cs) =
     (if old = [] then new @ c # replace old new cs
      else if prefix old (c # cs) then new @ replace old new (drop (length old) (c # cs))
      else c # replace old new cs)"
  by pat_completeness auto
termination
  by (relation "measure (\<lambda>(old, new, s). length s)") (auto simp: neq_Nil_conv)

definition fix_js :: "string \<Rightarrow> string" where
  "fix_js js = replace ''false'' ''False'' (replace ''true'' ''True'' (replace ''null'' ''None'' js))"

section \<open>\<^verbatim>\<open>NEWPLOT_PATTERN\<close> and \<^verbatim>\<open>re.search\<close>\<close>

text \<open>
  The regular expressions the pattern is built from, and a backtracking matcher with
  the priorities of Python's \<^verbatim>\<open>re\<close>: alternatives left to right, a greedy
  repetition longest first, a lazy one shortest first, an optional part tried before it is
  skipped. Repetition is over a character class, which is all the pattern needs.
\<close>

datatype cclass = Only char | Space | Except char | AnyChar

text \<open>\<^verbatim>\<open>\s\<close> on a \<^verbatim>\<open>str\<close> pattern is Unicode whitespace; below 256 these are the code
  points 9 to 13, 28 to 32, 133 and 160.\<close>

definition is_space :: "char \<Rightarrow> bool" where
  "is_space c = (let n = (of_char c :: nat)
     in (9 \<le> n \<and> n \<le> 13) \<or> (28 \<le> n \<and> n \<le> 32) \<or> n = 133 \<or> n = 160)"

fun in_class :: "cclass \<Rightarrow> char \<Rightarrow> bool" where
  "in_class (Only c) x = (x = c)"
| "in_class Space x = is_space x"
| "in_class (Except c) x = (x \<noteq> c)"
| "in_class AnyChar x = True"

datatype rx =
    Eps
  | Chr cclass
  | StarG cclass
  | StarL cclass
  | Seq rx rx
  | Alt rx rx
  | Opt rx
  | Grp string rx

type_synonym groups = "string \<rightharpoonup> string"

primrec star_greedy :: "cclass \<Rightarrow> (string \<Rightarrow> 'r option) \<Rightarrow> string \<Rightarrow> 'r option" where
  "star_greedy c k [] = k []"
| "star_greedy c k (x # xs) =
     (if in_class c x
      then (case star_greedy c k xs of Some r \<Rightarrow> Some r | None \<Rightarrow> k (x # xs))
      else k (x # xs))"

primrec star_lazy :: "cclass \<Rightarrow> (string \<Rightarrow> 'r option) \<Rightarrow> string \<Rightarrow> 'r option" where
  "star_lazy c k [] = k []"
| "star_lazy c k (x # xs) =
     (case k (x # xs) of Some r \<Rightarrow> Some r
      | None \<Rightarrow> if in_class c x then star_lazy c k xs else None)"

text \<open>\<open>rmatch r s g k\<close> matches \<open>r\<close> at the front of \<open>s\<close> and hands the rest of the
  text and the groups to the continuation \<open>k\<close>; when \<open>k\<close> fails the next way of matching
  \<open>r\<close> is tried. A group records the text its body consumed.\<close>

primrec rmatch :: "rx \<Rightarrow> string \<Rightarrow> groups \<Rightarrow> (string \<Rightarrow> groups \<Rightarrow> 'r option) \<Rightarrow> 'r option" where
  "rmatch Eps s g k = k s g"
| "rmatch (Chr c) s g k =
     (case s of [] \<Rightarrow> None | x # xs \<Rightarrow> if in_class c x then k xs g else None)"
| "rmatch (StarG c) s g k = star_greedy c (\<lambda>r. k r g) s"
| "rmatch (StarL c) s g k = star_lazy c (\<lambda>r. k r g) s"
| "rmatch (Seq a b) s g k = rmatch a s g (\<lambda>r g'. rmatch b r g' k)"
| "rmatch (Alt a b) s g k =
     (case rmatch a s g k of Some r \<Rightarrow> Some r | None \<Rightarrow> rmatch b s g k)"
| "rmatch (Opt a) s g k =
     (case rmatch a s g k of Some r \<Rightarrow> Some r | None \<Rightarrow> k s g)"
| "rmatch (Grp n a) s g k =
     rmatch a s g (\<lambda>r g'. k r (g'(n \<mapsto> take (length s - length r) s)))"

text \<open>\<^verbatim>\<open>pattern.search(text)\<close>: the first match at the leftmost position that has
  one; the result is the groups of the match.\<close>

primrec search :: "rx \<Rightarrow> string \<Rightarrow> groups option" where
  "search p [] = rmatch p [] Map.empty (\<lambda>r g. Some g)"
| "search p (x # xs) =
     (case rmatch p (x # xs) Map.empty (\<lambda>r g. Some g) of
        Some g \<Rightarrow> Some g
      | None \<Rightarrow> search p xs)"

definition lits :: "string \<Rightarrow> rx" where
  "lits s = foldr (\<lambda>c r. Seq (Chr (Only c)) r) s Eps"

definition seqs :: "rx list \<Rightarrow> rx" where
  "seqs rs = foldr Seq rs Eps"

definition plus_greedy :: "cclass \<Rightarrow> rx" where
  "plus_greedy c = Seq (Chr c) (StarG c)"

definition ws :: rx where
  "ws = StarG Space"

definition quoted :: "char \<Rightarrow> rx" where
  "quoted q = seqs [Chr (Only q), plus_greedy (Except q), Chr (Only q)]"

definition bracketed :: "char \<Rightarrow> char \<Rightarrow> rx" where
  "bracketed l r = seqs [Chr (Only l), StarL AnyChar, Chr (Only r)]"

definition NEWPLOT_PATTERN :: rx where
  "NEWPLOT_PATTERN = seqs
     [lits ''Plotly'', Chr (Only CHR ''.''), lits ''newPlot'', ws, Chr (Only CHR ''(''), ws,
      Grp ''id'' (Alt (quoted (CHR 0x27)) (quoted (CHR 0x22))), ws, Chr (Only CHR '',''), ws,
      Grp ''data'' (bracketed CHR ''['' CHR '']''), ws, Chr (Only CHR '',''), ws,
      Grp ''layout'' (bracketed CHR ''{'' CHR ''}''),
      Opt (seqs [ws, Chr (Only CHR '',''), ws, Grp ''config'' (bracketed CHR ''{'' CHR ''}'')]),
      ws, Chr (Only CHR '')'')]"

section \<open>A literal parser\<close>

text \<open>
  \<^verbatim>\<open>ast.literal_eval\<close> belongs to the Python library, so \<open>extract_plotly_json\<close>
  below takes the parser as a parameter. \<open>literal_eval\<close> is the instance used to run
  the model: the library function on the JSON-shaped part of its input language, that is
  a list or a dict display, from its opening to its closing bracket, built from
  \<^verbatim>\<open>None\<close>, \<^verbatim>\<open>True\<close>, \<^verbatim>\<open>False\<close>, decimal integers with an optional sign,
  string literals in single or double quotes without backslash or control characters,
  lists, and dicts with string-literal keys (a repeated key keeps its first position and
  its last value), with blanks between tokens and an optional trailing comma. On every
  other text it answers \<open>SyntaxError\<close>; the library accepts some of those (floats,
  tuples, sets, escapes, adjacent string literals, a value that is not in brackets).
  The library also has limits on the number of digits and the depth of nesting, far
  beyond the texts evaluated here.
\<close>

datatype tok =
    TLBrack | TRBrack | TLBrace | TRBrace | TComma | TColon | TMinus | TPlus
  | TStr string | TNum int | TName string

definition is_blank :: "char \<Rightarrow> bool" where
  "is_blank c = (c = CHR '' '' \<or> c = CHR 0x09 \<or> c = CHR 0x0A \<or> c = CHR 0x0C \<or> c = CHR 0x0D)"

definition is_digit :: "char \<Rightarrow> bool" where
  "is_digit c = (let n = (of_char c :: nat) in 48 \<le> n \<and> n \<le> 57)"

definition is_ident :: "char \<Rightarrow> bool" where
  "is_ident c = (let n = (of_char c :: nat)
     in (65 \<le> n \<and> n \<le> 90) \<or> (97 \<le> n \<and> n \<le> 122) \<or> n = 95 \<or> (48 \<le> n \<and> n \<le> 57))"

definition punct :: "char \<Rightarrow> tok option" where
  "punct c =
     (if c = CHR ''['' then Some TLBrack else if c = CHR '']'' then Some TRBrack
      else if c = CHR ''{'' then Some TLBrace else if c = CHR ''}'' then Some TRBrace
      else if c = CHR '','' then Some TComma else if c = CHR '':'' then Some TColon
      else if c = CHR ''-'' then Some TMinus else if c = CHR ''+'' then Some TPlus
      else None)"

text \<open>The body of a string literal opened by the quote \<open>q\<close>, and the text after the
  closing quote.\<close>

fun scan_string :: "char \<Rightarrow> string \<Rightarrow> (string \<times> string) option" where
  "scan_string q [] = None"
| "scan_string q (c # cs) =
     (if c = q then Some ([], cs)
      else if c = CHR 0x5C \<or> (of_char c :: nat) < 32 then None
      else (case scan_string q cs of None \<Rightarrow> None
            | Some (body, rest) \<Rightarrow> Some (c # body, rest)))"

definition digits_value :: "string \<Rightarrow> int" where
  "digits_value ds = foldl (\<lambda>n d. 10 * n + (of_char d - 48)) 0 ds"

function tokenize :: "string \<Rightarrow> tok list option" where
  "tokenize [] = Some []"
| "tokenize (c # cs) =
     (if is_blank c then tokenize cs
      else
        (case punct c of
           Some t \<Rightarrow> map_option (Cons t) (tokenize cs)
         | None \<Rightarrow>
           if c = CHR 0x27 \<or> c = CHR 0x22 then
             (case scan_string c cs of None \<Rightarrow> None
              | Some (body, rest) \<Rightarrow> map_option (Cons (TStr body)) (tokenize rest))
           else if is_digit c then
             (if (c = CHR ''0'' \<and> takeWhile is_digit cs \<noteq> [])
                 \<or> (case dropWhile is_digit cs of [] \<Rightarrow> False | d # _ \<Rightarrow> is_ident d \<or> d = CHR ''.'')
              then None
              else map_option (Cons (TNum (digits_value (c # takeWhile is_digit cs))))
                     (tokenize (dropWhile is_digit cs)))
           else if is_ident c then
             map_option (Cons (TName (c # takeWhile is_ident cs))) (tokenize (dropWhile is_ident cs))
           else None))"
  by pat_completeness auto
termination
proof -
  have rest: "scan_string q cs = Some (body, rest) \<Longrightarrow> length rest \<le> length cs"
    for q cs body rest
    by (induction cs arbitrary: body) (auto split: if_splits option.splits)
  show ?thesis
    by (relation "measure length") (auto simp: rest length_dropWhile_le less_Suc_eq_le)
qed

fun parse_value :: "nat \<Rightarrow> tok list \<Rightarrow> (pyval \<times> tok list) option"
and parse_items :: "nat \<Rightarrow> pyval list \<Rightarrow> tok list \<Rightarrow> (pyval \<times> tok list) option"
and parse_entries :: "nat \<Rightarrow> (string \<times> pyval) list \<Rightarrow> tok list \<Rightarrow> (pyval \<times> tok list) option"
where
  "parse_value 0 ts = None"
| "parse_value (Suc n) [] = None"
| "parse_value (Suc n) (TName nm # r) =
     (if nm = ''None'' then Some (PNone, r)
      else if nm = ''True'' then Some (PBool True, r)
      else if nm = ''False'' then Some (PBool False, r)
      else None)"
| "parse_value (Suc n) (TNum k # r) = Some (PInt k, r)"
| "parse_value (Suc n) (TMinus # r) =
     (case r of TNum k # r' \<Rightarrow> Some (PInt (- k), r') | _ \<Rightarrow> None)"
| "parse_value (Suc n) (TPlus # r) =
     (case r of TNum k # r' \<Rightarrow> Some (PInt k, r') | _ \<Rightarrow> None)"
| "parse_value (Suc n) (TStr s # r) = Some (PStr s, r)"
| "parse_value (Suc n) (TLBrack # r) = parse_items n [] r"
| "parse_value (Suc n) (TLBrace # r) = parse_entries n [] r"
| "parse_value (Suc n) (TRBrack # r) = None"
| "parse_value (Suc n) (TRBrace # r) = None"
| "parse_value (Suc n) (TComma # r) = None"
| "parse_value (Suc n) (TColon # r) = None"
| "parse_items 0 acc ts = None"
| "parse_items (Suc n) acc ts =
     (case ts of
        TRBrack # r \<Rightarrow> Some (PList acc, r)
      | _ \<Rightarrow>
        (case parse_value n ts of
           None \<Rightarrow> None
         | Some (v, r) \<Rightarrow>
           (case r of
              TComma # r' \<Rightarrow> parse_items n (acc @ [v]) r'
            | TRBrack # r' \<Rightarrow> Some (PList (acc @ [v]), r')
            | _ \<Rightarrow> None)))"
| "parse_entries 0 acc ts = None"
| "parse_entries (Suc n) acc ts =
     (case ts of
        TRBrace # r \<Rightarrow> Some (PDict acc, r)
      | TStr k # TColon # r \<Rightarrow>
        (case parse_value n r of
           None \<Rightarrow> None
         | Some (v, r') \<Rightarrow>
           (case r' of
              TComma # r'' \<Rightarrow> parse_entries n (dict_set acc k v) r''
            | TRBrace # r'' \<Rightarrow> Some (PDict (dict_set acc k v), r'')
            | _ \<Rightarrow> None))
      | _ \<Rightarrow> None)"

text \<open>Every call of the parser consumes a token or is followed by one that does, so
  twice the number of tokens is fuel enough.\<close>

definition literal_eval :: "string \<Rightarrow> exn + pyval" where
  "literal_eval s =
     (if (prefix ''['' s \<or> prefix ''{'' s) \<and> (suffix '']'' s \<or> suffix ''}'' s) then
        (case tokenize s of
           None \<Rightarrow> Inl SyntaxError
         | Some ts \<Rightarrow>
           (case parse_value (2 * length ts + 2) ts of
              Some (v, []) \<Rightarrow> Inr v
            | _ \<Rightarrow> Inl SyntaxError))
      else Inl SyntaxError)"

section \<open>\<^verbatim>\<open>extract_plotly_json\<close>\<close>

text \<open>The dict \<^verbatim>\<open>{"data": ..., "layout": ..., "config": ...}\<close> the function returns.\<close>

record fig_json =
  data :: pyval
  layout :: pyval
  config :: pyval

text \<open>The \<^verbatim>\<open>try\<close> block evaluates data, layout and config in this order; any
  exception makes the function print a message and return \<^verbatim>\<open>None\<close>, also the one
  \<^verbatim>\<open>fix\<close> would raise on a group that took no part in the match.\<close>

definition extract_plotly_json :: "(string \<Rightarrow> exn + pyval) \<Rightarrow> string \<Rightarrow> fig_json option" where
  "extract_plotly_json lev html =
     (case search NEWPLOT_PATTERN html of
        None \<Rightarrow> None
      | Some m \<Rightarrow>
        (case m ''data'' of
           None \<Rightarrow> None
         | Some data_str \<Rightarrow>
           (case lev (fix_js data_str) of
              Inl e \<Rightarrow> None
            | Inr d \<Rightarrow>
              (case m ''layout'' of
                 None \<Rightarrow> None
               | Some layout_str \<Rightarrow>
                 (case lev (fix_js layout_str) of
                    Inl e \<Rightarrow> None
                  | Inr l \<Rightarrow>
                    (case (case m ''config'' of
                             None \<Rightarrow> Inr (PDict [])
                           | Some cfg_str \<Rightarrow>
                               if cfg_str \<noteq> [] then lev (fix_js cfg_str) else Inr (PDict [])) of
                       Inl e \<Rightarrow> None
                     | Inr c \<Rightarrow> Some \<lparr>data = d, layout = l, config = c\<rparr>))))))"

section \<open>\<^verbatim>\<open>normalize_heatmapgl\<close>\<close>

text \<open>The loop body: \<^verbatim>\<open>trace.get\<close> exists on a dict only; the assignment replaces the
  value under \<^verbatim>\<open>"type"\<close> where it is.\<close>

definition normalize_trace :: "pyval \<Rightarrow> exn + pyval" where
  "normalize_trace trace =
     (case trace of
        PDict d \<Rightarrow>
          Inr (PDict (if dict_get d ''type'' = Some (PStr ''heatmapgl'')
                      then dict_set d ''type'' (PStr ''heatmap'') else d))
      | _ \<Rightarrow> Inl AttributeError)"

fun normalize_traces :: "pyval list \<Rightarrow> exn + pyval list" where
  "normalize_traces [] = Inr []"
| "normalize_traces (t # ts) =
     (case normalize_trace t of
        Inl e \<Rightarrow> Inl e
      | Inr t' \<Rightarrow>
        (case normalize_traces ts of Inl e \<Rightarrow> Inl e | Inr ts' \<Rightarrow> Inr (t' # ts')))"

text \<open>\<^verbatim>\<open>for trace in fig_json.get("data", ())\<close>: a list yields its elements, a dict
  its keys and a string its characters (strings both, on which \<^verbatim>\<open>.get\<close> fails);
  \<^verbatim>\<open>None\<close>, a bool and an int are not iterable.\<close>

definition normalize_data :: "pyval \<Rightarrow> exn + pyval" where
  "normalize_data d =
     (case d of
        PList ts \<Rightarrow> (case normalize_traces ts of Inl e \<Rightarrow> Inl e | Inr ts' \<Rightarrow> Inr (PList ts'))
      | PDict kvs \<Rightarrow> if kvs = [] then Inr d else Inl AttributeError
      | PStr cs \<Rightarrow> if cs = [] then Inr d else Inl AttributeError
      | _ \<Rightarrow> Inl TypeError)"

text \<open>The dict comprehension over \<^verbatim>\<open>data_template.items()\<close>: the entries are inserted
  in order under their new keys.\<close>

definition rename_heatmapgl :: "(string \<times> pyval) list \<Rightarrow> (string \<times> pyval) list" where
  "rename_heatmapgl dt =
     foldl (\<lambda>acc (k, v). dict_set acc (if k = ''heatmapgl'' then ''heatmap'' else k) v) [] dt"

definition normalize_heatmapgl :: "fig_json \<Rightarrow> exn + fig_json" where
  "normalize_heatmapgl fig =
     (case normalize_data (data fig) of
        Inl e \<Rightarrow> Inl e
      | Inr d' \<Rightarrow>
        (case layout fig of
           PDict l \<Rightarrow>
             (case (case dict_get l ''template'' of Some t \<Rightarrow> t | None \<Rightarrow> PDict []) of
                PDict template \<Rightarrow>
                  let template' =
                        (case dict_get template ''data'' of
                           Some (PDict data_template) \<Rightarrow>
                             dict_set template ''data'' (PDict (rename_heatmapgl data_template))
                         | _ \<Rightarrow> template)
                  in Inr (fig\<lparr>data := d', layout := PDict (dict_set l ''template'' (PDict template'))\<rparr>)
              | _ \<Rightarrow> Inl AttributeError)
         | _ \<Rightarrow> Inl AttributeError))"

section \<open>Base64\<close>

text \<open>\<^verbatim>\<open>base64.b64encode(png_bytes).decode()\<close>: the standard alphabet of RFC 4648 with
  \<^verbatim>\<open>=\<close> padding, three bytes to four characters. \<open>b64decode\<close> is the strict inverse
  the text of a \<^verbatim>\<open>image/png\<close> payload is read back with.\<close>

type_synonym byte = "8 word"

definition b64chars :: string where
  "b64chars = ''ABCDEFGHIJKLMNOPQRSTUVWXYZabcdefghijklmnopqrstuvwxyz0123456789+/''"

definition b64char :: "nat \<Rightarrow> char" where
  "b64char n = b64chars ! (n mod 64)"

text \<open>The four six-bit groups of three bytes, and the three bytes of four groups.\<close>

definition sextet1 :: "byte \<Rightarrow> nat" where
  "sextet1 a = unat a div 4"

definition sextet2 :: "byte \<Rightarrow> byte \<Rightarrow> nat" where
  "sextet2 a b = unat a mod 4 * 16 + unat b div 16"

definition sextet3 :: "byte \<Rightarrow> byte \<Rightarrow> nat" where
  "sextet3 b c = unat b mod 16 * 4 + unat c div 64"

definition sextet4 :: "byte \<Rightarrow> nat" where
  "sextet4 c = unat c mod 64"

definition octet1 :: "nat \<Rightarrow> nat \<Rightarrow> byte" where
  "octet1 s1 s2 = of_nat (s1 * 4 + s2 div 16)"

definition octet2 :: "nat \<Rightarrow> nat \<Rightarrow> byte" where
  "octet2 s2 s3 = of_nat (s2 mod 16 * 16 + s3 div 4)"

definition octet3 :: "nat \<Rightarrow> nat \<Rightarrow> byte" where
  "octet3 s3 s4 = of_nat (s3 mod 4 * 64 + s4)"

fun b64encode :: "byte list \<Rightarrow> string" where
  "b64encode [] = []"
| "b64encode [a] =
     [b64char (sextet1 a), b64char (sextet2 a 0), CHR ''='', CHR ''='']"
| "b64encode [a, b] =
     [b64char (sextet1 a), b64char (sextet2 a b), b64char (sextet3 b 0), CHR ''='']"
| "b64encode (a # b # c # bs) =
     [b64char (sextet1 a), b64char (sextet2 a b), b64char (sextet3 b c), b64char (sextet4 c)]
     @ b64encode bs"

fun index_of :: "'a \<Rightarrow> 'a list \<Rightarrow> nat option" where
  "index_of x [] = None"
| "index_of x (y # ys) = (if x = y then Some 0 else map_option Suc (index_of x ys))"

fun b64decode :: "string \<Rightarrow> byte list option" where
  "b64decode [] = Some []"
| "b64decode [c1, c2, c3, c4] =
     (case (index_of c1 b64chars, index_of c2 b64chars) of
        (Some s1, Some s2) \<Rightarrow>
          if c3 = CHR ''='' \<and> c4 = CHR ''='' then
            (if s2 mod 16 = 0 then Some [octet1 s1 s2] else None)
          else
            (case index_of c3 b64chars of
               Some s3 \<Rightarrow>
                 if c4 = CHR ''='' then
                   (if s3 mod 4 = 0 then Some [octet1 s1 s2, octet2 s2 s3] else None)
                 else
                   (case index_of c4 b64chars of
                      Some s4 \<Rightarrow> Some [octet1 s1 s2, octet2 s2 s3, octet3 s3 s4]
                    | None \<Rightarrow> None)
             | None \<Rightarrow> None)
      | _ \<Rightarrow> None)"
| "b64decode (c1 # c2 # c3 # c4 # c5 # cs) =
     (case (index_of c1 b64chars, index_of c2 b64chars, index_of c3 b64chars, index_of c4 b64chars) of
        (Some s1, Some s2, Some s3, Some s4) \<Rightarrow>
          (case b64decode (c5 # cs) of
             Some bs \<Rightarrow> Some (octet1 s1 s2 # octet2 s2 s3 # octet3 s3 s4 # bs)
           | None \<Rightarrow> None)
      | _ \<Rightarrow> None)"
| "b64decode _ = None"

section \<open>\<^verbatim>\<open>preprocess\<close>\<close>

text \<open>
  The library calls the hook makes: \<open>lev\<close> is \<^verbatim>\<open>ast.literal_eval\<close>; \<open>render\<close> is
  \<^verbatim>\<open>go.Figure(data=..., layout=...)\<close> followed by \<^verbatim>\<open>pio.to_image(fig, format="png")\<close>,
  giving the PNG bytes and \<^verbatim>\<open>fig.layout.width\<close>, or the exception either call
  raised; \<open>uuid4_hex k\<close> is \<^verbatim>\<open>uuid.uuid4().hex\<close> of the \<open>k\<close>-th identifier drawn.
\<close>

record libs =
  lev :: "string \<Rightarrow> exn + pyval"
  render :: "pyval \<Rightarrow> pyval \<Rightarrow> exn + (byte list \<times> pyval)"
  uuid4_hex :: "nat \<Rightarrow> string"

text \<open>A cell has its kind, its outputs when the key is present, and its other fields; an
  output is a dict. The resources dict has the \<^verbatim>\<open>"outputs"\<close> entry, from file name to
  bytes, when the key is present.\<close>

record cell =
  cell_type :: string
  outputs :: "pyval list option"
  cell_rest :: "(string \<times> pyval) list"

record notebook =
  cells :: "cell list"
  nb_rest :: "(string \<times> pyval) list"

record resources =
  res_outputs :: "(string \<times> byte list) list option"
  res_rest :: "(string \<times> pyval) list"

text \<open>What the loops mutate: \<^verbatim>\<open>outputs_store\<close> and the number of identifiers drawn.\<close>

type_synonym store = "(string \<times> byte list) list \<times> nat"

text \<open>\<^verbatim>\<open>nbformat.v4.new_output\<close> for a display output: the type, then the defaulted
  keys \<^verbatim>\<open>metadata\<close> and \<^verbatim>\<open>data\<close> filled from the arguments.\<close>

definition new_output :: "string \<Rightarrow> pyval \<Rightarrow> pyval \<Rightarrow> pyval" where
  "new_output output_type d md = PDict [(''output_type'', PStr output_type), (''metadata'', md), (''data'', d)]"

text \<open>The body of the loop over the outputs of a cell: the output appended to
  \<^verbatim>\<open>new_outputs\<close> and the store afterwards, or the exception that leaves the loop.
  \<^verbatim>\<open>.get\<close> needs a dict and \<^verbatim>\<open>search\<close> a string.\<close>

definition output_step :: "libs \<Rightarrow> pyval \<Rightarrow> store \<Rightarrow> exn + (pyval \<times> store)" where
  "output_step L out st =
     (case out of
        PDict o_fields \<Rightarrow>
          (case (case dict_get o_fields ''data'' of Some d \<Rightarrow> d | None \<Rightarrow> PDict []) of
             PDict mime \<Rightarrow>
               (let html = (case dict_get mime ''text/html'' of Some h \<Rightarrow> h | None \<Rightarrow> PNone) in
                if \<not> truthy html then Inr (out, st)
                else
                  (case html of
                     PStr h \<Rightarrow>
                       (case extract_plotly_json (lev L) h of
                          None \<Rightarrow> Inr (out, st)
                        | Some fig \<Rightarrow>
                          (case normalize_heatmapgl fig of
                             Inl e \<Rightarrow> Inl e
                           | Inr fig' \<Rightarrow>
                             (case render L (data fig') (layout fig') of
                                Inl e \<Rightarrow> Inr (out, st)
                              | Inr (png_bytes, width) \<Rightarrow>
                                  let fname = ''plotly_static_'' @ uuid4_hex L (snd st) @ ''.png'' in
                                  Inr (new_output ''display_data''
                                         (PDict [(''image/png'', PStr (b64encode png_bytes))])
                                         (PDict [(''image/png'',
                                            PDict [(''width'', if truthy width then width else PInt 700)])]),
                                       (dict_set (fst st) fname png_bytes, Suc (snd st))))))
                   | _ \<Rightarrow> Inl TypeError))
           | _ \<Rightarrow> Inl AttributeError)
      | _ \<Rightarrow> Inl AttributeError)"

fun outputs_loop :: "libs \<Rightarrow> pyval list \<Rightarrow> pyval list \<Rightarrow> store \<Rightarrow> (exn + pyval list) \<times> store" where
  "outputs_loop L [] new_outputs st = (Inr new_outputs, st)"
| "outputs_loop L (out # rest) new_outputs st =
     (case output_step L out st of
        Inl e \<Rightarrow> (Inl e, st)
      | Inr (out', st') \<Rightarrow> outputs_loop L rest (new_outputs @ [out']) st')"

text \<open>\<^verbatim>\<open>cell.get("outputs", [])\<close>.\<close>

definition cell_outputs :: "cell \<Rightarrow> pyval list" where
  "cell_outputs c = (case outputs c of Some os \<Rightarrow> os | None \<Rightarrow> [])"

text \<open>The loop over the cells. The cells are mutated in place, so the result has the
  cells as they are when the loop ends or an exception leaves it: a cell whose inner loop
  raised keeps its outputs, and so do the cells after it.\<close>

fun cells_loop :: "libs \<Rightarrow> cell list \<Rightarrow> store \<Rightarrow> exn option \<times> cell list \<times> store" where
  "cells_loop L [] st = (None, [], st)"
| "cells_loop L (c # cs) st =
     (if cell_type c \<noteq> ''code'' then
        (case cells_loop L cs st of (e, cs', st') \<Rightarrow> (e, c # cs', st'))
      else
        (case outputs_loop L (cell_outputs c) [] st of
           (Inl e, st') \<Rightarrow> (Some e, c # cs, st')
         | (Inr new_outputs, st') \<Rightarrow>
             (case cells_loop L cs st' of
                (e, cs', st'') \<Rightarrow> (e, c\<lparr>outputs := Some new_outputs\<rparr> # cs', st''))))"

text \<open>\<open>preprocess L drawn nb resources\<close>, after \<open>drawn\<close> identifiers have been drawn
  from the generator: the exception that left the call, if any, and the notebook and
  the resources dict as the call leaves them. With no exception the last two are the
  pair the hook returns.\<close>

definition preprocess ::
  "libs \<Rightarrow> nat \<Rightarrow> notebook \<Rightarrow> resources option \<Rightarrow> exn option \<times> notebook \<times> resources" where
  "preprocess L drawn nb resources =
     (let res = (case resources of None \<Rightarrow> \<lparr>res_outputs = None, res_rest = []\<rparr> | Some r \<Rightarrow> r);
          outputs_store = (case res_outputs res of None \<Rightarrow> [] | Some s \<Rightarrow> s)
      in case cells_loop L (cells nb) (outputs_store, drawn) of
           (e, cs', st') \<Rightarrow> (e, nb\<lparr>cells := cs'\<rparr>, res\<lparr>res_outputs := Some (fst st')\<rparr>))"

section \<open>Vocabulary of the properties\<close>

text \<open>\<^verbatim>\<open>out.get("data", {}).get("text/html")\<close> where both lookups are on dicts.\<close>

definition html_entry :: "pyval \<Rightarrow> pyval option" where
  "html_entry out =
     (case out of
        PDict o_fields \<Rightarrow>
          (case dict_get o_fields ''data'' of
             Some (PDict mime) \<Rightarrow> dict_get mime ''text/html''
           | _ \<Rightarrow> None)
      | _ \<Rightarrow> None)"

text \<open>The record that replaces a converted output.\<close>

definition image_output :: "string \<Rightarrow> pyval \<Rightarrow> pyval" where
  "image_output b64 w =
     PDict [(''output_type'', PStr ''display_data''),
            (''metadata'', PDict [(''image/png'', PDict [(''width'', w)])]),
            (''data'', PDict [(''image/png'', PStr b64)])]"

definition is_image_output :: "pyval \<Rightarrow> bool" where
  "is_image_output out = (\<exists>b64 w. out = image_output b64 w)"

text \<open>The path on which an output is converted: it has a non-empty HTML string that
  holds an invocation, the chart normalizes, and the renderer returns the bytes \<open>png\<close>
  and the width \<open>w\<close>.\<close>

definition converts :: "libs \<Rightarrow> pyval \<Rightarrow> byte list \<Rightarrow> pyval \<Rightarrow> bool" where
  "converts L out png w \<longleftrightarrow>
     (\<exists>h fig fig'. html_entry out = Some (PStr h) \<and> h \<noteq> []
        \<and> extract_plotly_json (lev L) h = Some fig
        \<and> normalize_heatmapgl fig = Inr fig'
        \<and> render L (data fig') (layout fig') = Inr (png, w))"

text \<open>An output and what stands at its position afterwards; a cell and the same cell
  afterwards.\<close>

definition kept_or_image :: "pyval \<Rightarrow> pyval \<Rightarrow> bool" where
  "kept_or_image out out' \<longleftrightarrow>
     (out' = out \<or> is_image_output out') \<and> (html_entry out = None \<longrightarrow> out' = out)"

definition cell_kept :: "cell \<Rightarrow> cell \<Rightarrow> bool" where
  "cell_kept c c' \<longleftrightarrow>
     (if cell_type c \<noteq> ''code'' then c' = c
      else c' = c\<lparr>outputs := outputs c'\<rparr> \<and> list_all2 kept_or_image (cell_outputs c) (cell_outputs c'))"

text \<open>What the loop body makes of an output does not depend on the store it meets:
  \<open>step_gives L out out'\<close> when it appends \<open>out'\<close> for \<open>out\<close>, \<open>step_raises L out x\<close>
  when it leaves with the exception \<open>x\<close>.\<close>

definition step_gives :: "libs \<Rightarrow> pyval \<Rightarrow> pyval \<Rightarrow> bool" where
  "step_gives L out out' \<longleftrightarrow> (\<forall>st. \<exists>st'. output_step L out st = Inr (out', st'))"

definition step_raises :: "libs \<Rightarrow> pyval \<Rightarrow> exn \<Rightarrow> bool" where
  "step_raises L out x \<longleftrightarrow> (\<forall>st. output_step L out st = Inl x)"

text \<open>The cells before \<open>k\<close> have been through the loop over their outputs; the
  cells from \<open>k\<close> on are as they were, and \<open>k\<close> is the cell the exception left.\<close>

definition processed_to :: "libs \<Rightarrow> nat \<Rightarrow> exn option \<Rightarrow> cell list \<Rightarrow> cell list \<Rightarrow> bool" where
  "processed_to L k e cs cs' \<longleftrightarrow>
     k \<le> length cs
     \<and> (e = None \<longrightarrow> k = length cs)
     \<and> (\<forall>i < k. cell_type (cs ! i) = ''code'' \<longrightarrow>
           list_all2 (step_gives L) (cell_outputs (cs ! i)) (cell_outputs (cs' ! i)))
     \<and> (\<forall>i. k \<le> i \<and> i < length cs \<longrightarrow> cs' ! i = cs ! i)
     \<and> (\<forall>x. e = Some x \<longrightarrow> k < length cs \<and> cell_type (cs ! k) = ''code''
           \<and> (\<exists>j < length (cell_outputs (cs ! k)). step_raises L (cell_outputs (cs ! k) ! j) x))"




fun digit_chars :: "nat \<Rightarrow> string" where
  "digit_chars n =
     (if n < 10 then [char_of (48 + n)] else digit_chars (n div 10) @ [char_of (48 + n mod 10)])"

declare digit_chars.simps [simp del]







text \<open>What \<open>normalize_heatmapgl\<close> is to do to a trace and to an entry of
  \<^verbatim>\<open>template.data\<close>.\<close>

definition retyped :: "pyval \<Rightarrow> pyval" where
  "retyped trace =
     (case trace of
        PDict d \<Rightarrow> PDict (if dict_get d ''type'' = Some (PStr ''heatmapgl'')
                          then dict_set d ''type'' (PStr ''heatmap'') else d)
      | _ \<Rightarrow> trace)"

definition renamed :: "string \<times> pyval \<Rightarrow> string \<times> pyval" where
  "renamed kv = (if fst kv = ''heatmapgl'' then ''heatmap'' else fst kv, snd kv)"

section \<open>Inputs to run the model on\<close>

text \<open>Stand-ins for the renderer and the identifier generator: any list of traces
  renders to four bytes with the width the layout asks for, anything else is refused;
  the \<open>k\<close>-th identifier is \<open>k\<close> in 32 digits.\<close>

definition png0 :: "byte list" where
  "png0 = [0x89, 0x50, 0x4E, 0x47]"

definition stub_render :: "pyval \<Rightarrow> pyval \<Rightarrow> exn + (byte list \<times> pyval)" where
  "stub_render d l =
     (case d of
        PList ts \<Rightarrow>
          Inr (png0, (case l of
                        PDict kvs \<Rightarrow> (case dict_get kvs ''width'' of Some w \<Rightarrow> w | None \<Rightarrow> PNone)
                      | _ \<Rightarrow> PNone))
      | _ \<Rightarrow> Inl (LibraryError ''invalid data''))"

definition stub_uuid :: "nat \<Rightarrow> string" where
  "stub_uuid k = replicate (32 - length (digit_chars k)) CHR ''0'' @ digit_chars k"

definition stub_libs :: libs where
  "stub_libs = \<lparr>lev = literal_eval, render = stub_render, uuid4_hex = stub_uuid\<rparr>"

definition html_output :: "string \<Rightarrow> pyval" where
  "html_output h =
     PDict [(''output_type'', PStr ''display_data''),
            (''data'', PDict [(''text/html'', PStr h)]),
            (''metadata'', PDict [])]"

definition stream_output :: pyval where
  "stream_output =
     PDict [(''output_type'', PStr ''stream''), (''name'', PStr ''stdout''), (''text'', PStr ''ok'')]"

definition bar_invocation :: string where
  "bar_invocation = ''Plotly.newPlot('x', [{\"type\":\"bar\",\"y\":[1,2,3]}], {\"title\":\"T\"})''"


definition title_invocation :: string where
  "title_invocation =
     ''Plotly.newPlot('x', [{\"type\":\"bar\",\"y\":[1,2,3]}], {\"title\":\"Annual false alarms\"})''"

definition template_invocation :: string where
  "template_invocation =
     ''Plotly.newPlot('x', [{\"type\":\"bar\",\"y\":[1,2,3]}], {\"template\":\"plotly_dark\"})''"

definition code_cell :: "pyval list \<Rightarrow> cell" where
  "code_cell os = \<lparr>cell_type = ''code'', outputs = Some os, cell_rest = [(''source'', PStr ''fig.show()'')]\<rparr>"

definition other_cell :: "pyval list \<Rightarrow> cell" where
  "other_cell os = \<lparr>cell_type = ''markdown'', outputs = Some os, cell_rest = [(''source'', PStr ''# Title'')]\<rparr>"


definition template_nb :: notebook where
  "template_nb =
     \<lparr>cells = [code_cell [html_output bar_invocation],
               code_cell [html_output template_invocation, html_output bar_invocation]],
      nb_rest = [(''nbformat'', PInt 4)]\<rparr>"

text \<open>The values the bar chart's arguments denote.\<close>

definition bar_data :: pyval where
  "bar_data = PList [PDict [(''type'', PStr ''bar''), (''y'', PList [PInt 1, PInt 2, PInt 3])]]"

definition bar_layout :: pyval where
  "bar_layout = PDict [(''title'', PStr ''T'')]"

text \<open>A chart with a width, and the values the arguments of \<open>tokens_invocation\<close>
  denote.\<close>

definition wide_invocation :: string where
  "wide_invocation =
     ''Plotly.newPlot('x', [{\"type\":\"bar\",\"y\":[1,2,3]}], {\"title\":\"T\",\"width\":500})''"




text \<open>A notebook with two different charts in one cell.\<close>

definition two_charts_nb :: notebook where
  "two_charts_nb =
     \<lparr>cells = [other_cell [html_output bar_invocation],
               code_cell [html_output wide_invocation, stream_output, html_output bar_invocation],
               code_cell [html_output ''<b>no chart</b>'']],
      nb_rest = [(''nbformat'', PInt 4)]\<rparr>"


section \<open>Replacement and delimiters\<close>











section \<open>Where the pattern can match\<close>

lemma rmatch_lits:
  "rmatch (Seq (lits p) r) s g k = (if prefix p s then rmatch r (drop (length p) s) g k else None)"
proof (induction p arbitrary: s)
  case Nil
  show ?case by (simp add: lits_def)
next
  case (Cons c p)
  from Cons [unfolded lits_def] show ?case
    by (cases s) (auto simp: lits_def)
qed

lemma if_Some: "(if b then x else None) = Some m \<Longrightarrow> b \<and> x = Some m"
  by (cases b) simp_all

lemma newplot_prefix:
  assumes "rmatch NEWPLOT_PATTERN s g k = Some m"
  shows "prefix ''Plotly.newPlot'' s"
proof -
  obtain r where p: "NEWPLOT_PATTERN = Seq (lits ''Plotly'') (Seq (Chr (Only CHR ''.'')) (Seq (lits ''newPlot'') r))"
    by (simp add: NEWPLOT_PATTERN_def seqs_def)
  define t1 where "t1 = drop (length ''Plotly'') s"
  from assms have 1: "prefix ''Plotly'' s"
    and 2: "rmatch (Seq (Chr (Only CHR ''.'')) (Seq (lits ''newPlot'') r)) t1 g k = Some m"
    unfolding p rmatch_lits t1_def by (auto dest: if_Some)
  from 2 obtain t where 3: "t1 = CHR ''.'' # t" and 4: "rmatch (Seq (lits ''newPlot'') r) t g k = Some m"
    by (cases t1) (auto split: if_splits)
  from 4 have 5: "prefix ''newPlot'' t"
    unfolding rmatch_lits by (auto dest: if_Some)
  from 1 have "s = ''Plotly'' @ t1"
    unfolding t1_def by (metis append_eq_conv_conj prefix_def)
  with 3 have "s = ''Plotly'' @ CHR ''.'' # t" by simp
  moreover from 5 obtain u where "t = ''newPlot'' @ u" by (auto simp: prefix_def)
  ultimately have "s = ''Plotly.newPlot'' @ u" by simp
  then show ?thesis by (metis prefixI)
qed

lemma newplot_no_prefix:
  assumes "\<not> prefix ''Plotly.newPlot'' s"
  shows "rmatch NEWPLOT_PATTERN s g k = None"
proof (rule ccontr)
  assume "rmatch NEWPLOT_PATTERN s g k \<noteq> None"
  then obtain m where "rmatch NEWPLOT_PATTERN s g k = Some m" by blast
  from newplot_prefix [OF this] assms show False by contradiction
qed

lemma search_no_occurrence:
  assumes "\<not> sublist ''Plotly.newPlot'' html"
  shows "search NEWPLOT_PATTERN html = None"
  using assms
proof (induction html)
  case Nil
  have "\<not> prefix ''Plotly.newPlot'' []" by simp
  from newplot_no_prefix [OF this] show ?case by simp
next
  case (Cons x xs)
  have "\<not> prefix ''Plotly.newPlot'' (x # xs)"
    using Cons.prems prefix_imp_sublist by blast
  from newplot_no_prefix [OF this]
  have m: "rmatch NEWPLOT_PATTERN (x # xs) Map.empty (\<lambda>r g. Some g) = None" .
  have "\<not> sublist ''Plotly.newPlot'' xs"
    using Cons.prems by (meson sublist_Cons_right)
  with Cons.IH m show ?case by simp
qed

lemma search_skip:
  assumes "\<forall>i<length pre. \<not> prefix ''Plotly.newPlot'' (drop i (pre @ s))"
  shows "search NEWPLOT_PATTERN (pre @ s) = search NEWPLOT_PATTERN s"
  using assms
proof (induction pre)
  case Nil show ?case by simp
next
  case (Cons x pre)
  from Cons.prems have "\<not> prefix ''Plotly.newPlot'' (drop 0 ((x # pre) @ s))" by blast
  then have "\<not> prefix ''Plotly.newPlot'' (x # pre @ s)" by simp
  from newplot_no_prefix [OF this]
  have m: "rmatch NEWPLOT_PATTERN (x # pre @ s) Map.empty (\<lambda>r g. Some g) = None" .
  have "\<forall>i<length pre. \<not> prefix ''Plotly.newPlot'' (drop i (pre @ s))"
  proof (intro allI impI)
    fix i assume "i < length pre"
    then have "Suc i < length (x # pre)" by simp
    with Cons.prems have "\<not> prefix ''Plotly.newPlot'' (drop (Suc i) ((x # pre) @ s))" by blast
    then show "\<not> prefix ''Plotly.newPlot'' (drop i (pre @ s))" by simp
  qed
  with Cons.IH m show ?case by simp
qed

lemmas pattern_defs = NEWPLOT_PATTERN_def seqs_def lits_def ws_def quoted_def bracketed_def
  plus_greedy_def is_space_def

section \<open>Base64 decodes what it encoded\<close>

lemma byte_bound: "unat (a :: byte) < 256"
  using unsigned_less [of a] by simp

lemma of_nat_byte: "(of_nat (unat a) :: byte) = a"
  by simp

lemma byte_parts:
  fixes x :: nat assumes "x < 256"
  shows "x div 4 < 64" "x div 16 < 16" "x div 64 < 4"
  using assms by (simp_all add: div_less_iff_less_mult)

lemma sextet_bounds: "sextet1 a < 64" "sextet2 a b < 64" "sextet3 b c < 64" "sextet4 c < 64"
proof -
  show "sextet1 a < 64"
    unfolding sextet1_def by (rule byte_parts [OF byte_bound])
  have "unat a mod 4 < 4" "unat b div 16 < 16"
    using byte_parts [OF byte_bound [of b]] by simp_all
  then show "sextet2 a b < 64"
    unfolding sextet2_def by linarith
  have "unat b mod 16 < 16" "unat c div 64 < 4"
    using byte_parts [OF byte_bound [of c]] by simp_all
  then show "sextet3 b c < 64"
    unfolding sextet3_def by linarith
  show "sextet4 c < 64"
    unfolding sextet4_def by simp
qed

lemma octet1_sextets: "octet1 (sextet1 a) (sextet2 a b) = a"
proof -
  have "unat b div 16 div 16 = 0"
    using byte_parts [OF byte_bound [of b]] by simp
  then have "(unat a mod 4 * 16 + unat b div 16) div 16 = unat a mod 4"
    by simp
  then have "unat a div 4 * 4 + (unat a mod 4 * 16 + unat b div 16) div 16 = unat a"
    by simp
  then show ?thesis
    unfolding octet1_def sextet1_def sextet2_def by (simp only: of_nat_byte)
qed

lemma octet2_sextets: "octet2 (sextet2 a b) (sextet3 b c) = b"
proof -
  have "unat b div 16 mod 16 = unat b div 16"
    using byte_parts [OF byte_bound [of b]] by simp
  then have 1: "(unat a mod 4 * 16 + unat b div 16) mod 16 = unat b div 16"
    by simp
  have "unat c div 64 div 4 = 0"
    using byte_parts [OF byte_bound [of c]] by simp
  then have 2: "(unat b mod 16 * 4 + unat c div 64) div 4 = unat b mod 16"
    by simp
  have "(unat a mod 4 * 16 + unat b div 16) mod 16 * 16 + (unat b mod 16 * 4 + unat c div 64) div 4 = unat b"
    unfolding 1 2 by simp
  then show ?thesis
    unfolding octet2_def sextet2_def sextet3_def by (simp only: of_nat_byte)
qed

lemma octet3_sextets: "octet3 (sextet3 b c) (sextet4 c) = c"
proof -
  have "unat c div 64 mod 4 = unat c div 64"
    using byte_parts [OF byte_bound [of c]] by simp
  then have 1: "(unat b mod 16 * 4 + unat c div 64) mod 4 = unat c div 64"
    by simp
  have "(unat b mod 16 * 4 + unat c div 64) mod 4 * 64 + unat c mod 64 = unat c"
    unfolding 1 by simp
  then show ?thesis
    unfolding octet3_def sextet3_def sextet4_def by (simp only: of_nat_byte)
qed

lemma index_of_nth: "distinct xs \<Longrightarrow> n < length xs \<Longrightarrow> index_of (xs ! n) xs = Some n"
proof (induction xs arbitrary: n)
  case Nil then show ?case by simp
next
  case (Cons x xs)
  show ?case
  proof (cases n)
    case 0 then show ?thesis by simp
  next
    case (Suc k)
    with Cons.prems have "xs ! k \<in> set xs" by simp
    with Cons.prems have "xs ! k \<noteq> x" by auto
    with Suc Cons show ?thesis by simp
  qed
qed

lemma b64chars_distinct: "distinct b64chars" and b64chars_length: "length b64chars = 64"
  by (simp_all add: b64chars_def)

lemma index_b64char: "n < 64 \<Longrightarrow> index_of (b64char n) b64chars = Some n"
  using index_of_nth [OF b64chars_distinct, of n] by (simp add: b64char_def b64chars_length)

lemma b64char_not_pad: "b64char n \<noteq> CHR ''=''"
proof -
  have "n mod 64 < length b64chars"
    by (simp add: b64chars_length)
  then have "b64char n \<in> set b64chars"
    unfolding b64char_def by (rule nth_mem)
  moreover have "CHR ''='' \<notin> set b64chars"
    by (simp add: b64chars_def)
  ultimately show ?thesis by metis
qed

lemma b64encode_Nil: "b64encode bs = [] \<longleftrightarrow> bs = []"
  by (induction bs rule: b64encode.induct) simp_all

lemma sextet_pad: "sextet2 a 0 mod 16 = 0" "sextet3 b 0 mod 4 = 0"
  unfolding sextet2_def sextet3_def by simp_all

lemma b64_roundtrip: "b64decode (b64encode bs) = Some bs"
proof (induction bs rule: b64encode.induct)
  case 1 show ?case by simp
next
  case (2 a)
  show ?case
    by (simp add: index_b64char sextet_bounds sextet_pad octet1_sextets)
next
  case (3 a b)
  show ?case
    by (simp add: index_b64char sextet_bounds sextet_pad octet1_sextets octet2_sextets b64char_not_pad)
next
  case (4 a b c bs)
  show ?case
  proof (cases "b64encode bs")
    case Nil
    then show ?thesis
      by (simp add: index_b64char sextet_bounds octet1_sextets octet2_sextets octet3_sextets
            b64char_not_pad b64encode_Nil)
  next
    case (Cons c5 cs)
    with 4 show ?thesis
      by (simp add: index_b64char sextet_bounds octet1_sextets octet2_sextets octet3_sextets)
  qed
qed

section \<open>One step of the output loop\<close>

lemma new_output_image:
  "new_output ''display_data'' (PDict [(''image/png'', PStr b)]) (PDict [(''image/png'', PDict [(''width'', w)])])
   = image_output b w"
  by (simp add: new_output_def image_output_def)

lemma output_step_Inr:
  assumes "output_step L out st = Inr (out', st')"
  shows "(out' = out \<and> st' = st) \<or>
         (\<exists>png w. converts L out png w
            \<and> out' = image_output (b64encode png) (if truthy w then w else PInt 700)
            \<and> st' = (dict_set (fst st) (''plotly_static_'' @ uuid4_hex L (snd st) @ ''.png'') png, Suc (snd st)))"
proof -
  from assms obtain o_fields where o: "out = PDict o_fields"
    by (cases out) (simp_all add: output_step_def)
  define d where "d = (case dict_get o_fields ''data'' of Some d \<Rightarrow> d | None \<Rightarrow> PDict [])"
  from assms o obtain mime where m: "d = PDict mime"
    by (cases d) (simp_all add: output_step_def d_def)
  define html where "html = (case dict_get mime ''text/html'' of Some h \<Rightarrow> h | None \<Rightarrow> PNone)"
  have step: "output_step L out st =
     (if \<not> truthy html then Inr (out, st)
      else (case html of
              PStr h \<Rightarrow>
                (case extract_plotly_json (lev L) h of
                   None \<Rightarrow> Inr (out, st)
                 | Some fig \<Rightarrow>
                   (case normalize_heatmapgl fig of
                      Inl e \<Rightarrow> Inl e
                    | Inr fig' \<Rightarrow>
                      (case render L (data fig') (layout fig') of
                         Inl e \<Rightarrow> Inr (out, st)
                       | Inr (png_bytes, width) \<Rightarrow>
                           Inr (image_output (b64encode png_bytes) (if truthy width then width else PInt 700),
                                (dict_set (fst st) (''plotly_static_'' @ uuid4_hex L (snd st) @ ''.png'') png_bytes,
                                 Suc (snd st))))))
            | _ \<Rightarrow> Inl TypeError))"
    using o m unfolding output_step_def d_def html_def
    by (simp add: Let_def new_output_image split: pyval.splits option.splits sum.splits prod.splits)
  show ?thesis
  proof (cases "truthy html")
    case False
    with assms step show ?thesis by simp
  next
    case True
    with assms step obtain h where h: "html = PStr h" "h \<noteq> []"
      by (cases html) simp_all
    have he: "html_entry out = Some (PStr h)"
      using o m h unfolding html_entry_def d_def html_def
      by (auto split: option.splits pyval.splits)
    show ?thesis
    proof (cases "extract_plotly_json (lev L) h")
      case None
      with assms step True h show ?thesis by simp
    next
      case (Some fig)
      show ?thesis
      proof (cases "normalize_heatmapgl fig")
        case (Inl e)
        with assms step True h Some show ?thesis by simp
      next
        case (Inr fig')
        show ?thesis
        proof (cases "render L (data fig') (layout fig')")
          case (Inl e)
          with assms step True h Some Inr show ?thesis by simp
        next
          case r: (Inr pw)
          obtain png w where pw: "pw = (png, w)" by (cases pw)
          have "converts L out png w"
            unfolding converts_def using he h Some Inr r pw by blast
          moreover from assms step True h Some Inr r pw
          have "out' = image_output (b64encode png) (if truthy w then w else PInt 700)"
            "st' = (dict_set (fst st) (''plotly_static_'' @ uuid4_hex L (snd st) @ ''.png'') png, Suc (snd st))"
            by simp_all
          ultimately show ?thesis by blast
        qed
      qed
    qed
  qed
qed

lemma output_step_converts:
  assumes "converts L out png w"
  shows "output_step L out st =
           Inr (image_output (b64encode png) (if truthy w then w else PInt 700),
                (dict_set (fst st) (''plotly_static_'' @ uuid4_hex L (snd st) @ ''.png'') png, Suc (snd st)))"
proof -
  from assms obtain h fig fig' where c: "html_entry out = Some (PStr h)" "h \<noteq> []"
    "extract_plotly_json (lev L) h = Some fig" "normalize_heatmapgl fig = Inr fig'"
    "render L (data fig') (layout fig') = Inr (png, w)"
    unfolding converts_def by blast
  from c(1) obtain o_fields mime where o: "out = PDict o_fields" "dict_get o_fields ''data'' = Some (PDict mime)"
    "dict_get mime ''text/html'' = Some (PStr h)"
    unfolding html_entry_def by (auto split: pyval.splits option.splits)
  show ?thesis
    unfolding output_step_def using o c(2-) by (simp add: new_output_image Let_def)
qed

section \<open>The loops keep the shape of the notebook\<close>

lemma output_step_kept_or_image:
  assumes "output_step L out st = Inr (out', st')"
  shows "kept_or_image out out'"
proof -
  from output_step_Inr [OF assms] show ?thesis
  proof
    assume "out' = out \<and> st' = st"
    then show ?thesis by (simp add: kept_or_image_def)
  next
    assume "\<exists>png w. converts L out png w
            \<and> out' = image_output (b64encode png) (if truthy w then w else PInt 700)
            \<and> st' = (dict_set (fst st) (''plotly_static_'' @ uuid4_hex L (snd st) @ ''.png'') png, Suc (snd st))"
    then obtain png w where c: "converts L out png w"
      and o: "out' = image_output (b64encode png) (if truthy w then w else PInt 700)"
      by blast
    from c have "html_entry out \<noteq> None" by (auto simp: converts_def)
    moreover from o have "is_image_output out'" unfolding is_image_output_def by blast
    ultimately show ?thesis by (auto simp: kept_or_image_def)
  qed
qed

lemma outputs_loop_Inr:
  assumes "outputs_loop L outs acc st = (Inr new, st')"
  shows "\<exists>ys. new = acc @ ys \<and> list_all2 kept_or_image outs ys"
  using assms
proof (induction outs arbitrary: acc st)
  case Nil
  then show ?case by simp
next
  case (Cons out rest)
  from Cons.prems obtain out' st1 where s: "output_step L out st = Inr (out', st1)"
    and r: "outputs_loop L rest (acc @ [out']) st1 = (Inr new, st')"
    by (auto split: sum.splits prod.splits)
  from Cons.IH [OF r] obtain ys where "new = (acc @ [out']) @ ys" "list_all2 kept_or_image rest ys"
    by blast
  with output_step_kept_or_image [OF s] have "new = acc @ (out' # ys) \<and> list_all2 kept_or_image (out # rest) (out' # ys)"
    by simp
  then show ?case by blast
qed

lemma kept_or_image_refl: "list_all2 kept_or_image os os"
  by (simp add: list_all2_refl kept_or_image_def)

lemma cell_kept_refl: "cell_kept c c"
  by (simp add: cell_kept_def kept_or_image_refl)

lemma cells_loop_kept:
  assumes "cells_loop L cs st = (e, cs', st')"
  shows "list_all2 cell_kept cs cs'"
  using assms
proof (induction cs arbitrary: st e cs' st')
  case Nil
  then show ?case by simp
next
  case (Cons c cs)
  show ?case
  proof (cases "cell_type c \<noteq> ''code''")
    case True
    with Cons.prems obtain cs1 where r: "cells_loop L cs st = (e, cs1, st')" and c: "cs' = c # cs1"
      by (auto split: prod.splits)
    from Cons.IH [OF r] c show ?thesis by (simp add: cell_kept_refl)
  next
    case False
    obtain res st1 where l: "outputs_loop L (cell_outputs c) [] st = (res, st1)"
      by (cases "outputs_loop L (cell_outputs c) [] st")
    show ?thesis
    proof (cases res)
      case (Inl x)
      with Cons.prems False l have "cs' = c # cs" by simp
      then show ?thesis by (simp add: list_all2_refl cell_kept_refl)
    next
      case (Inr new)
      with Cons.prems False l obtain cs1 where r: "cells_loop L cs st1 = (e, cs1, st')"
        and c: "cs' = c\<lparr>outputs := Some new\<rparr> # cs1"
        by (auto split: prod.splits)
      from outputs_loop_Inr [of L "cell_outputs c" "[]" st new st1] l Inr
      have "list_all2 kept_or_image (cell_outputs c) new" by simp
      with False have "cell_kept c (c\<lparr>outputs := Some new\<rparr>)"
        by (simp add: cell_kept_def cell_outputs_def)
      with Cons.IH [OF r] c show ?thesis by simp
    qed
  qed
qed

text \<open>The output appended for an output, and the exception raised for it, are the same
  in every state of the store.\<close>

lemma output_step_any_store:
  "map_sum id fst (output_step L out st) = map_sum id fst (output_step L out st2)"
  unfolding output_step_def
  by (simp add: Let_def split: pyval.splits option.splits sum.splits prod.splits)

lemma output_step_gives:
  assumes "output_step L out st = Inr (out', st')"
  shows "step_gives L out out'"
  unfolding step_gives_def
proof
  fix st2
  from output_step_any_store [of L out st2 st] assms
  have "map_sum id fst (output_step L out st2) = Inr out'" by simp
  then show "\<exists>st'. output_step L out st2 = Inr (out', st')"
    by (cases "output_step L out st2") auto
qed

lemma output_step_raises:
  assumes "output_step L out st = Inl x"
  shows "step_raises L out x"
  unfolding step_raises_def
proof
  fix st2
  from output_step_any_store [of L out st2 st] assms
  have "map_sum id fst (output_step L out st2) = Inl x" by simp
  then show "output_step L out st2 = Inl x"
    by (cases "output_step L out st2") auto
qed

lemma outputs_loop_gives:
  assumes "outputs_loop L outs acc st = (Inr new, st')"
  shows "\<exists>ys. new = acc @ ys \<and> list_all2 (step_gives L) outs ys"
  using assms
proof (induction outs arbitrary: acc st)
  case Nil
  then show ?case by simp
next
  case (Cons out rest)
  from Cons.prems obtain out' st1 where s: "output_step L out st = Inr (out', st1)"
    and r: "outputs_loop L rest (acc @ [out']) st1 = (Inr new, st')"
    by (auto split: sum.splits prod.splits)
  from Cons.IH [OF r] obtain ys where "new = (acc @ [out']) @ ys" "list_all2 (step_gives L) rest ys"
    by blast
  with output_step_gives [OF s]
  have "new = acc @ (out' # ys) \<and> list_all2 (step_gives L) (out # rest) (out' # ys)"
    by simp
  then show ?case by blast
qed

lemma outputs_loop_raises:
  assumes "outputs_loop L outs acc st = (Inl x, st')"
  shows "\<exists>j < length outs. step_raises L (outs ! j) x"
  using assms
proof (induction outs arbitrary: acc st)
  case Nil
  then show ?case by simp
next
  case (Cons out rest)
  show ?case
  proof (cases "output_step L out st")
    case (Inl e)
    with Cons.prems have "e = x" by simp
    with output_step_raises [OF Inl] have "step_raises L ((out # rest) ! 0) x" by simp
    then show ?thesis by blast
  next
    case (Inr p)
    obtain out' st1 where p: "p = (out', st1)" by (cases p)
    with Cons.prems Inr have "outputs_loop L rest (acc @ [out']) st1 = (Inl x, st')" by simp
    from Cons.IH [OF this] obtain j where "j < length rest" "step_raises L (rest ! j) x" by blast
    then have "Suc j < length (out # rest) \<and> step_raises L ((out # rest) ! Suc j) x" by simp
    then show ?thesis by blast
  qed
qed

lemma processed_to_Cons:
  assumes "processed_to L k e cs cs'"
    and "cell_type c = ''code'' \<longrightarrow> list_all2 (step_gives L) (cell_outputs c) (cell_outputs c')"
  shows "processed_to L (Suc k) e (c # cs) (c' # cs')"
  using assms unfolding processed_to_def
  by (auto simp: nth_Cons less_Suc_eq_0_disj split: nat.splits)

lemma cells_loop_processed:
  assumes "cells_loop L cs st = (e, cs', st')"
  shows "\<exists>k. processed_to L k e cs cs'"
  using assms
proof (induction cs arbitrary: st e cs' st')
  case Nil
  then show ?case by (auto simp: processed_to_def)
next
  case (Cons c cs)
  show ?case
  proof (cases "cell_type c \<noteq> ''code''")
    case True
    with Cons.prems obtain cs1 where r: "cells_loop L cs st = (e, cs1, st')" and c: "cs' = c # cs1"
      by (auto split: prod.splits)
    from Cons.IH [OF r] obtain k where "processed_to L k e cs cs1" by blast
    from processed_to_Cons [OF this, of c c] True c show ?thesis by blast
  next
    case False
    obtain res st1 where l: "outputs_loop L (cell_outputs c) [] st = (res, st1)"
      by (cases "outputs_loop L (cell_outputs c) [] st")
    show ?thesis
    proof (cases res)
      case (Inl x)
      with Cons.prems False l have c: "cs' = c # cs" "e = Some x" by simp_all
      from outputs_loop_raises [of L "cell_outputs c" "[]" st x st1] l Inl
      have "\<exists>j < length (cell_outputs c). step_raises L (cell_outputs c ! j) x" by simp
      with c False have "processed_to L 0 e (c # cs) cs'"
        by (simp add: processed_to_def)
      then show ?thesis by blast
    next
      case (Inr new)
      with Cons.prems False l obtain cs1 where r: "cells_loop L cs st1 = (e, cs1, st')"
        and c: "cs' = c\<lparr>outputs := Some new\<rparr> # cs1"
        by (auto split: prod.splits)
      from outputs_loop_gives [of L "cell_outputs c" "[]" st new st1] l Inr
      have g: "list_all2 (step_gives L) (cell_outputs c) (cell_outputs (c\<lparr>outputs := Some new\<rparr>))"
        by (simp add: cell_outputs_def)
      from Cons.IH [OF r] obtain k where "processed_to L k e cs cs1" by blast
      from processed_to_Cons [OF this, of c "c\<lparr>outputs := Some new\<rparr>"] g c show ?thesis by blast
    qed
  qed
qed


lemma step_gives_converts:
  assumes "step_gives L out out'" and "converts L out png w"
  shows "out' = image_output (b64encode png) (if truthy w then w else PInt 700)"
proof -
  from assms(1) obtain st' where "output_step L out ([], 0) = Inr (out', st')"
    unfolding step_gives_def by blast
  with output_step_converts [OF assms(2), of "([], 0)"] show ?thesis by simp
qed

lemma step_gives_kept:
  assumes "step_gives L out out'" and "\<forall>png w. \<not> converts L out png w"
  shows "out' = out"
proof -
  from assms(1) obtain st' where "output_step L out ([], 0) = Inr (out', st')"
    unfolding step_gives_def by blast
  from output_step_Inr [OF this] assms(2) show ?thesis by blast
qed

section \<open>Order and count of outputs\<close>

text \<open>
  Claim C1. Whatever the libraries do, and whether or not an exception leaves the
  call, the notebook has the same cells afterwards; a cell that is not a code cell is
  exactly as before; a code cell differs at most in its outputs, has as many outputs as
  before, and each position holds the output that was there or an image output; an
  output without a \<^verbatim>\<open>text/html\<close> entry is at its position unchanged. Moreover the
  cells are done in order up to some cell \<open>k\<close>, all of them when no exception leaves the
  call: in a code cell before \<open>k\<close>, position \<open>j\<close> holds what the loop body returns for
  the output that was at position \<open>j\<close>, that is the image of this very output when it
  converts and the output itself when it does not; the cells from \<open>k\<close> on are as they
  were, and an exception is the one the loop body raises for an output of cell \<open>k\<close>.
\<close>

theorem preprocess_outputs_one_to_one:
  assumes "preprocess L drawn nb resources = (e, nb', resources')"
  shows "length (cells nb') = length (cells nb) \<and>
         (\<forall>i < length (cells nb).
            (cell_type (cells nb ! i) \<noteq> ''code'' \<longrightarrow> cells nb' ! i = cells nb ! i) \<and>
            (cell_type (cells nb ! i) = ''code'' \<longrightarrow>
               cells nb' ! i = (cells nb ! i)\<lparr>outputs := outputs (cells nb' ! i)\<rparr> \<and>
               length (cell_outputs (cells nb' ! i)) = length (cell_outputs (cells nb ! i)) \<and>
               (\<forall>j < length (cell_outputs (cells nb ! i)).
                  (cell_outputs (cells nb' ! i) ! j = cell_outputs (cells nb ! i) ! j
                     \<or> is_image_output (cell_outputs (cells nb' ! i) ! j)) \<and>
                  (html_entry (cell_outputs (cells nb ! i) ! j) = None \<longrightarrow>
                     cell_outputs (cells nb' ! i) ! j = cell_outputs (cells nb ! i) ! j)))) \<and>
         (\<exists>k \<le> length (cells nb).
            (e = None \<longrightarrow> k = length (cells nb)) \<and>
            (\<forall>i < k. cell_type (cells nb ! i) = ''code'' \<longrightarrow>
               (\<forall>j < length (cell_outputs (cells nb ! i)).
                  (\<forall>st. \<exists>st'. output_step L (cell_outputs (cells nb ! i) ! j) st
                                 = Inr (cell_outputs (cells nb' ! i) ! j, st')) \<and>
                  (\<forall>png w. converts L (cell_outputs (cells nb ! i) ! j) png w \<longrightarrow>
                     cell_outputs (cells nb' ! i) ! j
                       = image_output (b64encode png) (if truthy w then w else PInt 700)) \<and>
                  ((\<forall>png w. \<not> converts L (cell_outputs (cells nb ! i) ! j) png w) \<longrightarrow>
                     cell_outputs (cells nb' ! i) ! j = cell_outputs (cells nb ! i) ! j))) \<and>
            (\<forall>i. k \<le> i \<and> i < length (cells nb) \<longrightarrow> cells nb' ! i = cells nb ! i) \<and>
            (\<forall>x. e = Some x \<longrightarrow>
               k < length (cells nb) \<and> cell_type (cells nb ! k) = ''code'' \<and>
               (\<exists>j < length (cell_outputs (cells nb ! k)).
                  \<forall>st. output_step L (cell_outputs (cells nb ! k) ! j) st = Inl x)))"
proof -
  from assms obtain st' where c: "cells_loop L (cells nb)
      (case res_outputs (case resources of None \<Rightarrow> \<lparr>res_outputs = None, res_rest = []\<rparr> | Some r \<Rightarrow> r) of
         None \<Rightarrow> [] | Some s \<Rightarrow> s, drawn) = (e, cells nb', st')"
    unfolding preprocess_def by (auto simp: Let_def split: prod.splits)
  from cells_loop_kept [OF c] have k: "list_all2 cell_kept (cells nb) (cells nb')" .
  then have len: "length (cells nb') = length (cells nb)"
    by (simp add: list_all2_lengthD)
  have ck: "cell_kept (cells nb ! i) (cells nb' ! i)" if "i < length (cells nb)" for i
    using k that by (simp add: list_all2_conv_all_nth)
  have "(cell_type (cells nb ! i) \<noteq> ''code'' \<longrightarrow> cells nb' ! i = cells nb ! i) \<and>
            (cell_type (cells nb ! i) = ''code'' \<longrightarrow>
               cells nb' ! i = (cells nb ! i)\<lparr>outputs := outputs (cells nb' ! i)\<rparr> \<and>
               length (cell_outputs (cells nb' ! i)) = length (cell_outputs (cells nb ! i)) \<and>
               (\<forall>j < length (cell_outputs (cells nb ! i)).
                  kept_or_image (cell_outputs (cells nb ! i) ! j) (cell_outputs (cells nb' ! i) ! j)))"
    if "i < length (cells nb)" for i
    using ck [OF that] unfolding cell_kept_def by (auto simp: list_all2_conv_all_nth)
  then have shape: "\<forall>i < length (cells nb).
            (cell_type (cells nb ! i) \<noteq> ''code'' \<longrightarrow> cells nb' ! i = cells nb ! i) \<and>
            (cell_type (cells nb ! i) = ''code'' \<longrightarrow>
               cells nb' ! i = (cells nb ! i)\<lparr>outputs := outputs (cells nb' ! i)\<rparr> \<and>
               length (cell_outputs (cells nb' ! i)) = length (cell_outputs (cells nb ! i)) \<and>
               (\<forall>j < length (cell_outputs (cells nb ! i)).
                  (cell_outputs (cells nb' ! i) ! j = cell_outputs (cells nb ! i) ! j
                     \<or> is_image_output (cell_outputs (cells nb' ! i) ! j)) \<and>
                  (html_entry (cell_outputs (cells nb ! i) ! j) = None \<longrightarrow>
                     cell_outputs (cells nb' ! i) ! j = cell_outputs (cells nb ! i) ! j)))"
    unfolding kept_or_image_def by blast
  from cells_loop_processed [OF c] obtain k where p: "processed_to L k e (cells nb) (cells nb')"
    by blast
  have g: "step_gives L (cell_outputs (cells nb ! i) ! j) (cell_outputs (cells nb' ! i) ! j)"
    if "i < k" "cell_type (cells nb ! i) = ''code''" "j < length (cell_outputs (cells nb ! i))" for i j
    using p that unfolding processed_to_def by (simp add: list_all2_conv_all_nth)
  have pos: "\<forall>i < k. cell_type (cells nb ! i) = ''code'' \<longrightarrow>
               (\<forall>j < length (cell_outputs (cells nb ! i)).
                  (\<forall>st. \<exists>st'. output_step L (cell_outputs (cells nb ! i) ! j) st
                                 = Inr (cell_outputs (cells nb' ! i) ! j, st')) \<and>
                  (\<forall>png w. converts L (cell_outputs (cells nb ! i) ! j) png w \<longrightarrow>
                     cell_outputs (cells nb' ! i) ! j
                       = image_output (b64encode png) (if truthy w then w else PInt 700)) \<and>
                  ((\<forall>png w. \<not> converts L (cell_outputs (cells nb ! i) ! j) png w) \<longrightarrow>
                     cell_outputs (cells nb' ! i) ! j = cell_outputs (cells nb ! i) ! j))"
  proof (intro allI impI conjI)
    fix i j st
    assume a: "i < k" "cell_type (cells nb ! i) = ''code''" "j < length (cell_outputs (cells nb ! i))"
    from g [OF a] show "\<exists>st'. output_step L (cell_outputs (cells nb ! i) ! j) st
                                 = Inr (cell_outputs (cells nb' ! i) ! j, st')"
      unfolding step_gives_def by blast
  next
    fix i j png w
    assume a: "i < k" "cell_type (cells nb ! i) = ''code''" "j < length (cell_outputs (cells nb ! i))"
      and cv: "converts L (cell_outputs (cells nb ! i) ! j) png w"
    from step_gives_converts [OF g [OF a] cv]
    show "cell_outputs (cells nb' ! i) ! j
            = image_output (b64encode png) (if truthy w then w else PInt 700)" .
  next
    fix i j
    assume a: "i < k" "cell_type (cells nb ! i) = ''code''" "j < length (cell_outputs (cells nb ! i))"
      and nc: "\<forall>png w. \<not> converts L (cell_outputs (cells nb ! i) ! j) png w"
    from step_gives_kept [OF g [OF a] nc]
    show "cell_outputs (cells nb' ! i) ! j = cell_outputs (cells nb ! i) ! j" .
  qed
  from p have rest: "k \<le> length (cells nb)" "e = None \<longrightarrow> k = length (cells nb)"
    "\<forall>i. k \<le> i \<and> i < length (cells nb) \<longrightarrow> cells nb' ! i = cells nb ! i"
    "\<forall>x. e = Some x \<longrightarrow>
               k < length (cells nb) \<and> cell_type (cells nb ! k) = ''code'' \<and>
               (\<exists>j < length (cell_outputs (cells nb ! k)).
                  \<forall>st. output_step L (cell_outputs (cells nb ! k) ! j) st = Inl x)"
    unfolding processed_to_def step_raises_def by blast+
  from len shape pos rest show ?thesis by blast
qed

theorem preprocess_outputs_one_to_one_witness:
  "fst (preprocess stub_libs 0 two_charts_nb None) = None
   \<and> cell_type (cells two_charts_nb ! 0) \<noteq> ''code''
   \<and> cells (fst (snd (preprocess stub_libs 0 two_charts_nb None))) ! 0 = cells two_charts_nb ! 0
   \<and> cell_type (cells two_charts_nb ! 1) = ''code''
   \<and> cell_outputs (cells two_charts_nb ! 1)
       = [html_output wide_invocation, stream_output, html_output bar_invocation]
   \<and> length (cell_outputs (cells (fst (snd (preprocess stub_libs 0 two_charts_nb None))) ! 1)) = 3
   \<and> cell_outputs (cells (fst (snd (preprocess stub_libs 0 two_charts_nb None))) ! 1) ! 0
       = image_output ''iVBORw=='' (PInt 500)
   \<and> cell_outputs (cells (fst (snd (preprocess stub_libs 0 two_charts_nb None))) ! 1) ! 1
       = stream_output
   \<and> cell_outputs (cells (fst (snd (preprocess stub_libs 0 two_charts_nb None))) ! 1) ! 2
       = image_output ''iVBORw=='' (PInt 700)"
proof -
  define r where "r = preprocess stub_libs 0 two_charts_nb None"
  define outs' where "outs' = cell_outputs (cells (fst (snd r)) ! 1)"
  have p: "preprocess stub_libs 0 two_charts_nb None = (fst r, fst (snd r), snd (snd r))"
    by (simp add: r_def)
  note t = preprocess_outputs_one_to_one [OF p]
  have e: "fst r = None"
    unfolding r_def by code_simp
  have n: "length (cells two_charts_nb) = 3"
    by (simp add: two_charts_nb_def)
  have c0: "cell_type (cells two_charts_nb ! 0) \<noteq> ''code''"
    by (simp add: two_charts_nb_def other_cell_def)
  have c1: "cell_type (cells two_charts_nb ! 1) = ''code''"
    by (simp add: two_charts_nb_def code_cell_def)
  have o1: "cell_outputs (cells two_charts_nb ! 1)
              = [html_output wide_invocation, stream_output, html_output bar_invocation]"
    by (simp add: two_charts_nb_def code_cell_def cell_outputs_def)
  have h: "html_entry stream_output = None"
    by (simp add: html_entry_def stream_output_def)
  from t n c0 have k0: "cells (fst (snd r)) ! 0 = cells two_charts_nb ! 0"
    by simp
  from t n c1 o1 h have len: "length outs' = 3" and k1: "outs' ! 1 = stream_output"
    unfolding outs'_def by simp_all
  from t e n obtain k where k: "k = 3"
    and pos: "\<forall>i < k. cell_type (cells two_charts_nb ! i) = ''code'' \<longrightarrow>
               (\<forall>j < length (cell_outputs (cells two_charts_nb ! i)).
                  (\<forall>st. \<exists>st'. output_step stub_libs (cell_outputs (cells two_charts_nb ! i) ! j) st
                                 = Inr (cell_outputs (cells (fst (snd r)) ! i) ! j, st')))"
    by auto
  have s: "\<exists>st'. output_step stub_libs ([html_output wide_invocation, stream_output, html_output bar_invocation] ! j) ([], 0)
                        = Inr (outs' ! j, st')" if "j < 3" for j
  proof -
    have "1 < k" "j < length (cell_outputs (cells two_charts_nb ! 1))"
      using k o1 that by simp_all
    from pos [rule_format, OF this(1) c1 this(2), of "([], 0)"] show ?thesis
      unfolding outs'_def o1 .
  qed
  have w: "fst (projr (output_step stub_libs (html_output wide_invocation) ([], 0)))
             = image_output ''iVBORw=='' (PInt 500)"
    and b: "fst (projr (output_step stub_libs (html_output bar_invocation) ([], 0)))
             = image_output ''iVBORw=='' (PInt 700)"
    by code_simp+
  from s [of 0] w have i0: "outs' ! 0 = image_output ''iVBORw=='' (PInt 500)"
    by auto
  from s [of 2] b have i2: "outs' ! 2 = image_output ''iVBORw=='' (PInt 700)"
    by auto
  from e k0 c0 c1 o1 len i0 k1 i2 show ?thesis
    unfolding r_def outs'_def by simp
qed

section \<open>Extraction of the bar chart\<close>

lemma bar_match:
  "\<exists>g. rmatch NEWPLOT_PATTERN (bar_invocation @ post) Map.empty (\<lambda>r g. Some g) = Some g
     \<and> g ''data'' = Some ''[{\"type\":\"bar\",\"y\":[1,2,3]}]''
     \<and> g ''layout'' = Some ''{\"title\":\"T\"}''
     \<and> g ''config'' = None"
  by (simp add: pattern_defs bar_invocation_def)

lemma bar_search:
  assumes "\<forall>i<length pre. \<not> prefix ''Plotly.newPlot'' (drop i (pre @ bar_invocation @ post))"
  shows "\<exists>g. search NEWPLOT_PATTERN (pre @ bar_invocation @ post) = Some g
     \<and> g ''data'' = Some ''[{\"type\":\"bar\",\"y\":[1,2,3]}]''
     \<and> g ''layout'' = Some ''{\"title\":\"T\"}''
     \<and> g ''config'' = None"
proof -
  obtain c cs where s: "bar_invocation @ post = c # cs"
    by (simp add: bar_invocation_def)
  from bar_match [of post] obtain g where g: "rmatch NEWPLOT_PATTERN (c # cs) Map.empty (\<lambda>r g. Some g) = Some g"
    "g ''data'' = Some ''[{\"type\":\"bar\",\"y\":[1,2,3]}]''" "g ''layout'' = Some ''{\"title\":\"T\"}''"
    "g ''config'' = None"
    unfolding s by blast
  have "search NEWPLOT_PATTERN (pre @ bar_invocation @ post) = search NEWPLOT_PATTERN (c # cs)"
    using search_skip [OF assms] s by simp
  also have "\<dots> = Some g"
    using g(1) by simp
  finally show ?thesis using g(2-) by blast
qed

lemma fix_js_bar:
  "fix_js ''[{\"type\":\"bar\",\"y\":[1,2,3]}]'' = ''[{\"type\":\"bar\",\"y\":[1,2,3]}]''"
  "fix_js ''{\"title\":\"T\"}'' = ''{\"title\":\"T\"}''"
  by (simp_all add: fix_js_def)

text \<open>
  Claim C3. In an HTML text where the invocation
  \<^verbatim>\<open>Plotly.newPlot('x', [{"type":"bar","y":[1,2,3]}], {"title":"T"})\<close> is the first place
  that \<^verbatim>\<open>Plotly.newPlot\<close> occurs, and with a literal parser that reads the two
  argument texts as the values they denote, \<open>extract_plotly_json\<close> returns that data,
  that layout and the empty dict as config. Whenever the pattern matches without its
  optional fourth argument and extraction succeeds, config is the empty dict.
\<close>

theorem extract_bar_invocation:
  assumes "\<forall>i<length pre. \<not> prefix ''Plotly.newPlot'' (drop i (pre @ bar_invocation @ post))"
    and "parse ''[{\"type\":\"bar\",\"y\":[1,2,3]}]'' = Inr bar_data"
    and "parse ''{\"title\":\"T\"}'' = Inr bar_layout"
  shows "extract_plotly_json parse (pre @ bar_invocation @ post)
           = Some \<lparr>data = bar_data, layout = bar_layout, config = PDict []\<rparr>
         \<and> (\<forall>html m fig. search NEWPLOT_PATTERN html = Some m \<and> m ''config'' = None
               \<and> extract_plotly_json parse html = Some fig \<longrightarrow> config fig = PDict [])"
proof
  from bar_search [OF assms(1)] obtain g where
    g: "search NEWPLOT_PATTERN (pre @ bar_invocation @ post) = Some g"
    "g ''data'' = Some ''[{\"type\":\"bar\",\"y\":[1,2,3]}]''" "g ''layout'' = Some ''{\"title\":\"T\"}''"
    "g ''config'' = None"
    by blast
  show "extract_plotly_json parse (pre @ bar_invocation @ post)
           = Some \<lparr>data = bar_data, layout = bar_layout, config = PDict []\<rparr>"
    unfolding extract_plotly_json_def g(1)
    by (simp add: g(2-) fix_js_bar assms(2,3))
next
  show "\<forall>html m fig. search NEWPLOT_PATTERN html = Some m \<and> m ''config'' = None
               \<and> extract_plotly_json parse html = Some fig \<longrightarrow> config fig = PDict []"
    by (auto simp: extract_plotly_json_def split: sum.splits option.splits)
qed

theorem extract_bar_invocation_witness:
  "literal_eval ''[{\"type\":\"bar\",\"y\":[1,2,3]}]'' = Inr bar_data
   \<and> literal_eval ''{\"title\":\"T\"}'' = Inr bar_layout
   \<and> extract_plotly_json literal_eval (''<script>'' @ bar_invocation @ ''</script>'')
       = Some \<lparr>data = bar_data, layout = bar_layout, config = PDict []\<rparr>
   \<and> search NEWPLOT_PATTERN bar_invocation \<noteq> None
   \<and> config (the (extract_plotly_json literal_eval bar_invocation)) = PDict []"
proof -
  have d: "literal_eval ''[{\"type\":\"bar\",\"y\":[1,2,3]}]'' = Inr bar_data"
    and l: "literal_eval ''{\"title\":\"T\"}'' = Inr bar_layout"
    unfolding bar_data_def bar_layout_def by code_simp+
  have p: "\<forall>i<length ''<script>''. \<not> prefix ''Plotly.newPlot'' (drop i (''<script>'' @ bar_invocation @ ''</script>''))"
  proof (intro allI impI)
    fix i assume "i < length ''<script>''"
    then have "i \<in> {0, 1, 2, 3, 4, 5, 6, 7}" by auto
    then show "\<not> prefix ''Plotly.newPlot'' (drop i (''<script>'' @ bar_invocation @ ''</script>''))"
      by (auto simp: bar_invocation_def)
  qed
  note t = extract_bar_invocation [of "''<script>''" "''</script>''" literal_eval, OF p d l]
  have e: "extract_plotly_json literal_eval ([] @ bar_invocation @ []) = Some \<lparr>data = bar_data, layout = bar_layout, config = PDict []\<rparr>"
    using extract_bar_invocation [of "[]" "[]" literal_eval, OF _ d l] by simp
  then obtain m where m: "search NEWPLOT_PATTERN bar_invocation = Some m"
    by (auto simp: extract_plotly_json_def split: option.splits)
  have "m ''config'' = None"
    using bar_search [of "[]" "[]"] m by auto
  with t m e have "config (the (extract_plotly_json literal_eval bar_invocation)) = PDict []"
    by simp
  with t d l m show ?thesis by simp
qed

section \<open>Outputs that are passed through\<close>

lemma output_step_html:
  assumes "html_entry out = Some (PStr h)"
  shows "output_step L out st =
     (if h = [] then Inr (out, st)
      else (case extract_plotly_json (lev L) h of
              None \<Rightarrow> Inr (out, st)
            | Some fig \<Rightarrow>
              (case normalize_heatmapgl fig of
                 Inl e \<Rightarrow> Inl e
               | Inr fig' \<Rightarrow>
                 (case render L (data fig') (layout fig') of
                    Inl e \<Rightarrow> Inr (out, st)
                  | Inr (png, w) \<Rightarrow>
                      Inr (image_output (b64encode png) (if truthy w then w else PInt 700),
                           (dict_set (fst st) (''plotly_static_'' @ uuid4_hex L (snd st) @ ''.png'') png,
                            Suc (snd st)))))))"
proof -
  from assms obtain o_fields mime where o: "out = PDict o_fields"
    "dict_get o_fields ''data'' = Some (PDict mime)" "dict_get mime ''text/html'' = Some (PStr h)"
    unfolding html_entry_def by (auto split: pyval.splits option.splits)
  show ?thesis
    unfolding output_step_def using o
    by (simp add: new_output_image Let_def split: option.splits sum.splits prod.splits)
qed

text \<open>
  Claim C8. A text in which \<^verbatim>\<open>Plotly.newPlot\<close> does not occur has no match of the
  pattern; and on a text with no match \<open>extract_plotly_json\<close> returns \<^verbatim>\<open>None\<close>
  and an output whose HTML entry is that text is appended unchanged, the store
  untouched.
\<close>

theorem no_invocation_passthrough:
  "(\<not> sublist ''Plotly.newPlot'' h \<longrightarrow> search NEWPLOT_PATTERN h = None)
   \<and> (search NEWPLOT_PATTERN h = None \<longrightarrow>
        extract_plotly_json parse h = None
        \<and> (html_entry out = Some (PStr h) \<longrightarrow> output_step L out st = Inr (out, st)))"
proof (intro conjI impI)
  assume "\<not> sublist ''Plotly.newPlot'' h"
  then show "search NEWPLOT_PATTERN h = None" by (rule search_no_occurrence)
next
  assume "search NEWPLOT_PATTERN h = None"
  then show "extract_plotly_json parse h = None"
    by (simp add: extract_plotly_json_def)
next
  assume "search NEWPLOT_PATTERN h = None" and e: "html_entry out = Some (PStr h)"
  then have "extract_plotly_json (lev L) h = None"
    by (simp add: extract_plotly_json_def)
  then show "output_step L out st = Inr (out, st)"
    unfolding output_step_html [OF e] by simp
qed

theorem no_invocation_passthrough_witness:
  "\<not> sublist ''Plotly.newPlot'' ''<b>no chart</b>''
   \<and> search NEWPLOT_PATTERN ''<b>no chart</b>'' = None
   \<and> extract_plotly_json literal_eval ''<b>no chart</b>'' = None
   \<and> html_entry (html_output ''<b>no chart</b>'') = Some (PStr ''<b>no chart</b>'')
   \<and> output_step stub_libs (html_output ''<b>no chart</b>'') ([], 0) = Inr (html_output ''<b>no chart</b>'', ([], 0))"
proof -
  define h where "h = ''<b>no chart</b>''"
  have n: "\<not> sublist ''Plotly.newPlot'' h"
  proof
    assume "sublist ''Plotly.newPlot'' h"
    then have "set ''Plotly.newPlot'' \<subseteq> set h" by (rule set_mono_sublist)
    then have "CHR ''P'' \<in> set h" by simp
    then show False by (simp add: h_def)
  qed
  have e: "html_entry (html_output h) = Some (PStr h)"
    by (simp add: html_entry_def html_output_def)
  note t = no_invocation_passthrough [of h literal_eval "html_output h" stub_libs "([], 0)"]
  have s: "search NEWPLOT_PATTERN h = None"
    by (rule t [THEN conjunct1, THEN mp, OF n])
  note u = t [THEN conjunct2, THEN mp, OF s]
  have x: "extract_plotly_json literal_eval h = None"
    by (rule u [THEN conjunct1])
  have o: "output_step stub_libs (html_output h) ([], 0) = Inr (html_output h, ([], 0))"
    by (rule u [THEN conjunct2, THEN mp, OF e])
  show ?thesis
    unfolding h_def [symmetric] by (intro conjI n s x e o)
qed

text \<open>
  Claim C10. An output whose MIME dict maps \<^verbatim>\<open>text/html\<close> to the empty string
  is appended unchanged with the store untouched, exactly as one whose MIME dict has
  no such key, whatever the libraries would answer: the test is \<^verbatim>\<open>not html\<close>.
\<close>

theorem empty_html_passthrough:
  assumes "dict_get o_fields ''data'' = Some (PDict mime)"
    and "dict_get mime ''text/html'' = Some (PStr []) \<or> dict_get mime ''text/html'' = None"
  shows "output_step L (PDict o_fields) st = Inr (PDict o_fields, st)"
  using assms(2) unfolding output_step_def by (elim disjE) (simp_all add: assms(1))

theorem empty_html_passthrough_witness:
  "dict_get [(''output_type'', PStr ''display_data''), (''data'', PDict [(''text/html'', PStr [])])] ''data''
     = Some (PDict [(''text/html'', PStr [])])
   \<and> dict_get [(''text/html'', PStr [])] ''text/html'' = Some (PStr [])
   \<and> output_step stub_libs (PDict [(''output_type'', PStr ''display_data''), (''data'', PDict [(''text/html'', PStr [])])]) ([], 0)
     = Inr (PDict [(''output_type'', PStr ''display_data''), (''data'', PDict [(''text/html'', PStr [])])], ([], 0))"
proof -
  have d: "dict_get [(''output_type'', PStr ''display_data''), (''data'', PDict [(''text/html'', PStr [])])] ''data''
     = Some (PDict [(''text/html'', PStr [])])"
    by simp
  have h: "dict_get [(''text/html'', PStr [])] ''text/html'' = Some (PStr [])"
    by simp
  from empty_html_passthrough [OF d, of stub_libs "([], 0)"] d h show ?thesis by blast
qed

section \<open>The three constants\<close>





section \<open>The converted output\<close>

lemma dict_get_set: "dict_get (dict_set d k v) n = (if n = k then Some v else dict_get d n)"
  by (induction d) auto

lemma dict_set_new: "dict_get d k = None \<Longrightarrow> dict_set d k v = d @ [(k, v)]"
  by (induction d) (auto split: if_splits)

lemma stub_converts:
  "converts stub_libs (html_output bar_invocation) png0 PNone"
  "converts stub_libs (html_output wide_invocation) png0 (PInt 500)"
proof -
  have 1: "html_entry (html_output h) = Some (PStr h)" for h
    by (simp add: html_entry_def html_output_def)
  have 2: "bar_invocation \<noteq> []" "wide_invocation \<noteq> []"
    by (simp_all add: bar_invocation_def wide_invocation_def)
  have 3: "extract_plotly_json (lev stub_libs) bar_invocation
             = Some \<lparr>data = bar_data, layout = bar_layout, config = PDict []\<rparr>"
    "extract_plotly_json (lev stub_libs) wide_invocation
             = Some \<lparr>data = bar_data, layout = PDict [(''title'', PStr ''T''), (''width'', PInt 500)], config = PDict []\<rparr>"
    unfolding bar_data_def bar_layout_def by code_simp+
  have 4: "normalize_heatmapgl \<lparr>data = bar_data, layout = bar_layout, config = PDict []\<rparr>
             = Inr \<lparr>data = bar_data, layout = PDict [(''title'', PStr ''T''), (''template'', PDict [])], config = PDict []\<rparr>"
    "normalize_heatmapgl \<lparr>data = bar_data, layout = PDict [(''title'', PStr ''T''), (''width'', PInt 500)], config = PDict []\<rparr>
             = Inr \<lparr>data = bar_data, layout = PDict [(''title'', PStr ''T''), (''width'', PInt 500), (''template'', PDict [])], config = PDict []\<rparr>"
    unfolding bar_data_def bar_layout_def by code_simp+
  have 5: "render stub_libs bar_data (PDict [(''title'', PStr ''T''), (''template'', PDict [])]) = Inr (png0, PNone)"
    "render stub_libs bar_data (PDict [(''title'', PStr ''T''), (''width'', PInt 500), (''template'', PDict [])]) = Inr (png0, PInt 500)"
    unfolding bar_data_def by code_simp+
  show "converts stub_libs (html_output bar_invocation) png0 PNone"
    unfolding converts_def using 1 2(1) 3(1) 4(1) 5(1) by fastforce
  show "converts stub_libs (html_output wide_invocation) png0 (PInt 500)"
    unfolding converts_def using 1 2(2) 3(2) 4(2) 5(2) by fastforce
qed

text \<open>
  Claim C7. On the path where an output is converted and the renderer returned the
  non-empty bytes \<open>png\<close> and the width \<open>w\<close>, the output appended is the dict with
  \<^verbatim>\<open>output_type\<close> \<^verbatim>\<open>"display_data"\<close>, a \<^verbatim>\<open>data\<close> dict whose one key
  \<^verbatim>\<open>image/png\<close> holds the Base64 text of \<open>png\<close>, which decodes to non-empty
  bytes, and a \<^verbatim>\<open>metadata\<close> width that is \<open>w\<close> when \<open>w\<close> is a width (truthy) and 700
  when \<open>w\<close> is \<^verbatim>\<open>None\<close>.
\<close>

theorem converted_output_shape:
  assumes "converts L out png w" and "png \<noteq> []"
  shows "\<exists>width st'.
           output_step L out st =
             Inr (PDict [(''output_type'', PStr ''display_data''),
                         (''metadata'', PDict [(''image/png'', PDict [(''width'', width)])]),
                         (''data'', PDict [(''image/png'', PStr (b64encode png))])], st')
           \<and> (\<exists>bytes. b64decode (b64encode png) = Some bytes \<and> bytes \<noteq> [])
           \<and> (truthy w \<longrightarrow> width = w)
           \<and> (w = PNone \<longrightarrow> width = PInt 700)"
proof -
  have "output_step L out st =
          Inr (PDict [(''output_type'', PStr ''display_data''),
                      (''metadata'', PDict [(''image/png'', PDict [(''width'', if truthy w then w else PInt 700)])]),
                      (''data'', PDict [(''image/png'', PStr (b64encode png))])],
               (dict_set (fst st) (''plotly_static_'' @ uuid4_hex L (snd st) @ ''.png'') png, Suc (snd st)))"
    using output_step_converts [OF assms(1), of st] by (simp add: image_output_def)
  moreover have "\<exists>bytes. b64decode (b64encode png) = Some bytes \<and> bytes \<noteq> []"
    using assms(2) by (simp add: b64_roundtrip)
  moreover have "truthy w \<longrightarrow> (if truthy w then w else PInt 700) = w"
    "w = PNone \<longrightarrow> (if truthy w then w else PInt 700) = PInt 700"
    by simp_all
  ultimately show ?thesis by blast
qed

theorem converted_output_shape_witness:
  "converts stub_libs (html_output wide_invocation) png0 (PInt 500) \<and> png0 \<noteq> []
   \<and> truthy (PInt 500)
   \<and> fst (projr (output_step stub_libs (html_output wide_invocation) ([], 0)))
       = PDict [(''output_type'', PStr ''display_data''),
                (''metadata'', PDict [(''image/png'', PDict [(''width'', PInt 500)])]),
                (''data'', PDict [(''image/png'', PStr ''iVBORw=='')])]
   \<and> fst (projr (output_step stub_libs (html_output bar_invocation) ([], 0)))
       = PDict [(''output_type'', PStr ''display_data''),
                (''metadata'', PDict [(''image/png'', PDict [(''width'', PInt 700)])]),
                (''data'', PDict [(''image/png'', PStr ''iVBORw=='')])]
   \<and> b64decode ''iVBORw=='' = Some png0"
proof -
  have n: "png0 \<noteq> []" by (simp add: png0_def)
  have e: "b64encode png0 = ''iVBORw==''" by code_simp
  have t: "truthy (PInt 500)" by simp
  from converted_output_shape [OF stub_converts(2) n, of "([], 0)"] t e
  have 1: "fst (projr (output_step stub_libs (html_output wide_invocation) ([], 0)))
       = PDict [(''output_type'', PStr ''display_data''),
                (''metadata'', PDict [(''image/png'', PDict [(''width'', PInt 500)])]),
                (''data'', PDict [(''image/png'', PStr ''iVBORw=='')])]"
    by auto
  from converted_output_shape [OF stub_converts(1) n, of "([], 0)"] e
  have 2: "fst (projr (output_step stub_libs (html_output bar_invocation) ([], 0)))
       = PDict [(''output_type'', PStr ''display_data''),
                (''metadata'', PDict [(''image/png'', PDict [(''width'', PInt 700)])]),
                (''data'', PDict [(''image/png'', PStr ''iVBORw=='')])]"
    by auto
  from converted_output_shape [OF stub_converts(2) n, of "([], 0)"] e
  have 3: "b64decode ''iVBORw=='' = Some png0"
    using b64_roundtrip [of png0] by simp
  from stub_converts(2) n t 1 2 3 show ?thesis by blast
qed

section \<open>The store of image files\<close>










section \<open>Normalization of regular charts\<close>

text \<open>On a chart whose data is a list of dicts and whose layout is a dict with no
  template or a dict as template, \<open>normalize_heatmapgl\<close> succeeds: every trace is
  retyped, the layout gets or keeps its template and is otherwise as it was, the template
  is as it was but for \<^verbatim>\<open>data\<close>, and a \<^verbatim>\<open>data\<close> dict without the key
  \<^verbatim>\<open>heatmap\<close> has its entries renamed in place.\<close>

lemma dict_get_None: "dict_get d k = None \<longleftrightarrow> k \<notin> fst ` set d"
proof (induction d)
  case Nil
  show ?case by simp
next
  case (Cons kv d)
  obtain k' v where "kv = (k', v)" by (cases kv)
  with Cons show ?case by (cases "k' = k") simp_all
qed

lemma foldl_dict_set_fresh:
  assumes "distinct (map fst acc @ map (f \<circ> fst) xs)"
  shows "foldl (\<lambda>acc (k, v). dict_set acc (f k) v) acc xs = acc @ map (\<lambda>(k, v). (f k, v)) xs"
  using assms
proof (induction xs arbitrary: acc)
  case Nil
  then show ?case by simp
next
  case (Cons x xs)
  obtain k v where x: "x = (k, v)" by (cases x)
  from Cons.prems x have "f k \<notin> fst ` set acc" by auto
  then have s: "dict_set acc (f k) v = acc @ [(f k, v)]"
    by (simp add: dict_set_new dict_get_None)
  from Cons.prems x have "distinct (map fst (acc @ [(f k, v)]) @ map (f \<circ> fst) xs)"
    by (auto simp: comp_def)
  from Cons.IH [OF this] s x show ?case by simp
qed

lemma rename_heatmapgl_no_collision:
  assumes "distinct (map fst dt)" and "''heatmap'' \<notin> fst ` set dt"
  shows "rename_heatmapgl dt = map renamed dt"
proof -
  define f where "f = (\<lambda>k :: string. if k = ''heatmapgl'' then ''heatmap'' else k)"
  have "inj_on (\<lambda>k. if k = a then b else k) S" if "b \<notin> S" for a b :: string and S
    using that unfolding inj_on_def by (auto split: if_splits)
  from this [of "''heatmap''" "set (map fst dt)" "''heatmapgl''"] assms(2)
  have "inj_on f (set (map fst dt))"
    unfolding f_def by simp
  with assms(1) have "distinct (map f (map fst dt))"
    by (simp only: distinct_map [of f "map fst dt"])
  then have "distinct (map fst [] @ map (f \<circ> fst) dt)"
    by simp
  from foldl_dict_set_fresh [OF this]
  have "rename_heatmapgl dt = map (\<lambda>(k, v). (f k, v)) dt"
    unfolding rename_heatmapgl_def f_def by simp
  also have "\<dots> = map renamed dt"
    unfolding renamed_def f_def by (simp add: case_prod_unfold)
  finally show ?thesis .
qed

lemma normalize_traces_dicts:
  assumes "\<forall>t \<in> set ts. \<exists>d. t = PDict d"
  shows "normalize_traces ts = Inr (map retyped ts)"
  using assms
proof (induction ts)
  case Nil
  then show ?case by simp
next
  case (Cons t ts)
  then obtain d where "t = PDict d" by auto
  with Cons show ?case
    by (simp add: normalize_trace_def retyped_def)
qed

lemma normalize_heatmapgl_regular:
  assumes "data fig = PList ts" and "\<forall>t \<in> set ts. \<exists>d. t = PDict d"
    and "layout fig = PDict l"
    and "dict_get l ''template'' = None \<and> t = [] \<or> dict_get l ''template'' = Some (PDict t)"
  shows "\<exists>l' t'. normalize_heatmapgl fig = Inr \<lparr>data = PList (map retyped ts), layout = PDict l', config = config fig\<rparr>
           \<and> dict_get l' ''template'' = Some (PDict t')
           \<and> (\<forall>k. k \<noteq> ''template'' \<longrightarrow> dict_get l' k = dict_get l k)
           \<and> (\<forall>k. k \<noteq> ''data'' \<longrightarrow> dict_get t' k = dict_get t k)
           \<and> (\<forall>dt. dict_get t ''data'' = Some (PDict dt) \<and> distinct (map fst dt)
                  \<and> ''heatmap'' \<notin> fst ` set dt \<longrightarrow>
                dict_get t' ''data'' = Some (PDict (map renamed dt)))
           \<and> ((\<forall>dt. dict_get t ''data'' \<noteq> Some (PDict dt)) \<longrightarrow> t' = t)"
proof -
  define t' where "t' = (case dict_get t ''data'' of
      Some (PDict data_template) \<Rightarrow> dict_set t ''data'' (PDict (rename_heatmapgl data_template))
    | _ \<Rightarrow> t)"
  define l' where "l' = dict_set l ''template'' (PDict t')"
  have tm: "(case dict_get l ''template'' of Some x \<Rightarrow> x | None \<Rightarrow> PDict []) = PDict t"
    using assms(4) by auto
  have n: "normalize_heatmapgl fig = Inr \<lparr>data = PList (map retyped ts), layout = PDict l', config = config fig\<rparr>"
    unfolding normalize_heatmapgl_def normalize_data_def
    using assms(1,3) normalize_traces_dicts [OF assms(2)] tm
    by (cases fig) (simp add: l'_def t'_def Let_def)
  have 1: "dict_get l' ''template'' = Some (PDict t')"
    and 2: "\<forall>k. k \<noteq> ''template'' \<longrightarrow> dict_get l' k = dict_get l k"
    unfolding l'_def by (simp_all add: dict_get_set)
  have 3: "\<forall>k. k \<noteq> ''data'' \<longrightarrow> dict_get t' k = dict_get t k"
    unfolding t'_def by (auto simp: dict_get_set split: option.splits pyval.splits)
  have 4: "\<forall>dt. dict_get t ''data'' = Some (PDict dt) \<and> distinct (map fst dt)
                  \<and> ''heatmap'' \<notin> fst ` set dt \<longrightarrow>
                dict_get t' ''data'' = Some (PDict (map renamed dt))"
    unfolding t'_def by (auto simp: dict_get_set rename_heatmapgl_no_collision)
  have 5: "(\<forall>dt. dict_get t ''data'' \<noteq> Some (PDict dt)) \<longrightarrow> t' = t"
    unfolding t'_def by (auto split: option.splits pyval.splits)
  from n 1 2 3 4 5 show ?thesis by blast
qed

text \<open>An exception leaves the step for an output with an HTML string only from
  \<open>normalize_heatmapgl\<close>: what the parser and the renderer raise is caught.\<close>

lemma output_step_raises_in_normalize:
  assumes "output_step L out st = Inl e" and "html_entry out = Some (PStr h)"
  shows "\<exists>fig. extract_plotly_json (lev L) h = Some fig \<and> normalize_heatmapgl fig = Inl e"
  using assms(1) unfolding output_step_html [OF assms(2)]
  by (auto split: if_splits option.splits sum.splits prod.splits)

section \<open>Where the code departs from its description\<close>

text \<open>
  Claim C2. \<open>preprocess\<close> can raise: \<open>normalize_heatmapgl\<close> is called outside the
  \<^verbatim>\<open>try\<close> blocks. On a notebook whose second code cell has a chart with
  \<^verbatim>\<open>"template":"plotly_dark"\<close> in its layout, \<^verbatim>\<open>template.get\<close> raises
  \<^verbatim>\<open>AttributeError\<close>, which leaves the call; the cell keeps its outputs, the chart
  after it among them.
\<close>

theorem preprocess_raises_attribute_error:
  "fst (preprocess stub_libs 0 template_nb None) = Some AttributeError
   \<and> cells (fst (snd (preprocess stub_libs 0 template_nb None))) ! 1 = cells template_nb ! 1"
  by code_simp

text \<open>
  Claim C4. Two inputs on which \<open>normalize_heatmapgl\<close> does not do what the claim
  says: a template that is a string makes it raise instead of leaving the chart alone,
  and in a \<^verbatim>\<open>template.data\<close> that has both keys the entry of \<^verbatim>\<open>heatmap\<close> is
  overwritten by the renamed entry of \<^verbatim>\<open>heatmapgl\<close>.
\<close>

theorem normalize_heatmapgl_template_cases:
  "normalize_heatmapgl
     \<lparr>data = PList [PDict [(''type'', PStr ''heatmapgl'')]],
      layout = PDict [(''template'', PStr ''plotly_dark'')], config = PDict []\<rparr>
     = Inl AttributeError
   \<and> normalize_heatmapgl
     \<lparr>data = PList [PDict [(''type'', PStr ''heatmapgl'')]],
      layout = PDict [(''template'', PDict [(''data'',
                 PDict [(''heatmap'', PList [PInt 1]), (''heatmapgl'', PList [PInt 2])])])],
      config = PDict []\<rparr>
     = Inr \<lparr>data = PList [PDict [(''type'', PStr ''heatmap'')]],
            layout = PDict [(''template'', PDict [(''data'', PDict [(''heatmap'', PList [PInt 2])])])],
            config = PDict []\<rparr>"
  by code_simp

text \<open>
  Claim C5. \<open>fix_js\<close> replaces inside string literals too: the title
  \<^verbatim>\<open>"Annual false alarms"\<close> is extracted as \<^verbatim>\<open>"Annual False alarms"\<close>.
\<close>

theorem fix_js_rewrites_string_contents:
  "extract_plotly_json literal_eval title_invocation
     = Some \<lparr>data = bar_data, layout = PDict [(''title'', PStr ''Annual False alarms'')],
             config = PDict []\<rparr>"
  by code_simp

end
